theory Spec2Isabelle
  imports Main "HOL-Library.Word" "HOL-Library.Sublist" "HOL-Library.AList"
begin

section \<open>JavaScript strings\<close>

text \<open>
  A JavaScript string is a sequence of 16-bit code units, and \<^verbatim>\<open>length\<close>,
  \<^verbatim>\<open>lastIndexOf\<close>, \<^verbatim>\<open>substring\<close>, \<^verbatim>\<open>startsWith\<close> and \<^verbatim>\<open>split\<close> all
  count and compare code units. The literals of \<^verbatim>\<open>demo.mjs\<close> are ASCII; \<open>js\<close> turns
  a literal into its code units.
\<close>

type_synonym code_unit = "16 word"
type_synonym jsstring = "code_unit list"

definition js :: "string \<Rightarrow> jsstring" where
  "js s = map of_char s"

definition LF :: code_unit where
  "LF = 10"

definition SLASH :: code_unit where
  "SLASH = 47"

definition APOSTROPHE :: code_unit where
  "APOSTROPHE = 39"

text \<open>\<^verbatim>\<open>s.startsWith(p)\<close>\<close>

definition startsWith :: "jsstring \<Rightarrow> jsstring \<Rightarrow> bool" where
  "startsWith s p = prefix p s"

text \<open>
  \<^verbatim>\<open>s.substring(a, b)\<close>: both indices are clamped to \<open>[0, length]\<close> and swapped when
  the first is the larger one.
\<close>

definition substring :: "jsstring \<Rightarrow> int \<Rightarrow> int \<Rightarrow> jsstring" where
  "substring s a b =
     (let n = int (length s);
          a' = max 0 (min a n);
          b' = max 0 (min b n);
          lo = min a' b';
          hi = max a' b'
      in take (nat (hi - lo)) (drop (nat lo) s))"

text \<open>
  \<^verbatim>\<open>s.lastIndexOf(c)\<close> for a search string of one code unit: the index of its last
  occurrence, \<open>-1\<close> when there is none.
\<close>

fun lastIndexOf :: "jsstring \<Rightarrow> code_unit \<Rightarrow> int" where
  "lastIndexOf [] c = -1"
| "lastIndexOf (x # xs) c =
     (let r = lastIndexOf xs c
      in if 0 \<le> r then r + 1 else if x = c then 0 else -1)"

text \<open>
  \<^verbatim>\<open>s.split(c)\<close> for a separator of one code unit. The result is never empty:
  \<^verbatim>\<open>"".split("\n")\<close> is \<^verbatim>\<open>[""]\<close>, and a trailing separator gives a trailing \<^verbatim>\<open>""\<close>.
\<close>

fun split_js :: "jsstring \<Rightarrow> code_unit \<Rightarrow> jsstring list" where
  "split_js [] c = [[]]"
| "split_js (x # xs) c =
     (if x = c then [] # split_js xs c
      else (case split_js xs c of
              [] \<Rightarrow> [[x]]
            | l # ls \<Rightarrow> (x # l) # ls))"

text \<open>
  The inverse direction, used to write a text as its lines: \<^verbatim>\<open>ls.join(c)\<close>.
\<close>

fun join_js :: "jsstring list \<Rightarrow> code_unit \<Rightarrow> jsstring" where
  "join_js [] c = []"
| "join_js [l] c = l"
| "join_js (l # ls) c = l @ c # join_js ls c"

section \<open>Errors\<close>

text \<open>
  Every \<^verbatim>\<open>throw\<close> of the source is a value: \<open>Error\<close> with its message for
  \<^verbatim>\<open>throw new Error(...)\<close>, \<open>AssertionError\<close> with its message for a failed
  \<^verbatim>\<open>assert.equal\<close>, \<open>TypeError\<close> for a method call on \<^verbatim>\<open>null\<close>, and
  \<open>PlatformError\<close> for a rejection of the HTTP client.
\<close>

datatype error =
    Error jsstring
  | AssertionError jsstring
  | TypeError
  | PlatformError jsstring

section \<open>Response Parser: \<^verbatim>\<open>parse_oid_check_authentication\<close>\<close>

text \<open>
  The object \<^verbatim>\<open>result\<close> while the loop runs: each of its two properties is absent
  (\<open>None\<close>) until a line sets it.
\<close>

record result_mut =
  r_ns :: "jsstring option"
  r_is_valid :: "bool option"

record check_authentication =
  ns :: jsstring
  is_valid :: bool

definition result_empty :: result_mut where
  "result_empty = \<lparr>r_ns = None, r_is_valid = None\<rparr>"

text \<open>The body of the \<^verbatim>\<open>for (const entry of entries)\<close> loop, one entry at a time.\<close>

definition parse_entry :: "result_mut \<Rightarrow> jsstring \<Rightarrow> error + result_mut" where
  "parse_entry result entry =
     (if startsWith entry (js ''ns:'') then
        Inr (result\<lparr>r_ns := Some (substring entry (int (length (js ''ns:''))) (int (length entry)))\<rparr>)
      else if startsWith entry (js ''is_valid:'') then
        (let v = substring entry (int (length (js ''is_valid:''))) (int (length entry))
         in if v = js ''true'' then Inr (result\<lparr>r_is_valid := Some True\<rparr>)
            else if v = js ''false'' then Inr (result\<lparr>r_is_valid := Some False\<rparr>)
            else Inl (Error (js ''Could not parse value '' @ [APOSTROPHE] @ js ''is_valid''
                             @ [APOSTROPHE] @ js '' as boolean'')))
      else Inl (Error (js ''Unknown entry '' @ [APOSTROPHE] @ entry @ [APOSTROPHE])))"

fun parse_entries :: "result_mut \<Rightarrow> jsstring list \<Rightarrow> error + result_mut" where
  "parse_entries result [] = Inr result"
| "parse_entries result (entry # entries) =
     (case parse_entry result entry of
        Inl e \<Rightarrow> Inl e
      | Inr result' \<Rightarrow> parse_entries result' entries)"

text \<open>\<^verbatim>\<open>response.split("\n").filter(n => !!n)\<close>: the non-empty lines.\<close>

definition entries_of :: "jsstring \<Rightarrow> jsstring list" where
  "entries_of response = filter (\<lambda>n. n \<noteq> []) (split_js response LF)"

definition parse_oid_check_authentication :: "jsstring \<Rightarrow> error + check_authentication" where
  "parse_oid_check_authentication response =
     (case parse_entries result_empty (entries_of response) of
        Inl e \<Rightarrow> Inl e
      | Inr result \<Rightarrow>
          (case (r_ns result, r_is_valid result) of
             (Some n, Some b) \<Rightarrow> Inr \<lparr>ns = n, is_valid = b\<rparr>
           | _ \<Rightarrow> Inl (Error (js ''Expected entries '' @ [APOSTROPHE] @ js ''ns'' @ [APOSTROPHE]
                             @ js '' and '' @ [APOSTROPHE] @ js ''is_valid'' @ [APOSTROPHE]))))"

section \<open>Identity Extractor: \<^verbatim>\<open>parse_oid_claimed_id_steam\<close>\<close>

text \<open>
  The argument is what \<^verbatim>\<open>params_in.get("openid.claimed_id")\<close> returns: a string, or
  \<^verbatim>\<open>null\<close> (\<open>None\<close>) when the parameter is absent, on which \<^verbatim>\<open>lastIndexOf\<close> throws
  a \<^verbatim>\<open>TypeError\<close>.
\<close>

definition parse_oid_claimed_id_steam :: "jsstring option \<Rightarrow> error + jsstring" where
  "parse_oid_claimed_id_steam claimed_id =
     (case claimed_id of
        None \<Rightarrow> Inl TypeError
      | Some s \<Rightarrow>
          (let idx = lastIndexOf s SLASH
           in if \<not> (0 < idx) then Inl (AssertionError (js ''idx is gt 0''))
              else
                (let steam_id = substring s (idx + 1) (int (length s))
                 in if length steam_id \<noteq> 17 then
                      Inl (Error (js ''Could not parse Steam ID from '' @ [APOSTROPHE]
                                  @ js ''claimed_id'' @ [APOSTROPHE]))
                    else Inr steam_id)))"

section \<open>JavaScript objects with string values\<close>

text \<open>
  The two objects of the source that are used as dictionaries (\<^verbatim>\<open>config.steam_openid.params\<close>
  and \<^verbatim>\<open>params_out\<close>) hold strings under string keys. An object is modelled by its own
  properties in creation order. \<^verbatim>\<open>Object.entries\<close> does not list them in that order:
  keys that are array indices (canonical decimal numerals below \<open>2^32 - 1\<close>) come first, in
  ascending numeric order, and the other keys follow in creation order.
\<close>

type_synonym object = "(jsstring \<times> jsstring) list"

definition is_digit :: "code_unit \<Rightarrow> bool" where
  "is_digit c = (48 \<le> c \<and> c \<le> 57)"

definition digits_value :: "jsstring \<Rightarrow> nat" where
  "digits_value k = foldl (\<lambda>n c. 10 * n + (unat c - 48)) 0 k"

definition is_array_index :: "jsstring \<Rightarrow> bool" where
  "is_array_index k =
     (k \<noteq> [] \<and> list_all is_digit k \<and> (length k = 1 \<or> hd k \<noteq> 48)
      \<and> digits_value k < 2 ^ 32 - 1)"

text \<open>
  A property of an object literal \<^verbatim>\<open>{ k: v, ... }\<close>: a later duplicate key replaces the
  value and keeps the place of the first.
\<close>

definition object_define :: "object \<Rightarrow> jsstring \<Rightarrow> jsstring \<Rightarrow> object" where
  "object_define obj k v = AList.update k v obj"

definition object_literal :: "(jsstring \<times> jsstring) list \<Rightarrow> object" where
  "object_literal kvs = foldl (\<lambda>obj (k, v). object_define obj k v) [] kvs"

text \<open>
  The assignment \<^verbatim>\<open>obj[k] = v\<close> of a string \<^verbatim>\<open>v\<close> on an object whose prototype is
  \<^verbatim>\<open>Object.prototype\<close>: the key \<^verbatim>\<open>__proto__\<close> reaches the inherited setter, which
  ignores a value that is neither an object nor \<^verbatim>\<open>null\<close>, so no property is created;
  every other key creates the property or replaces its value in place.
\<close>

definition object_set :: "object \<Rightarrow> jsstring \<Rightarrow> jsstring \<Rightarrow> object" where
  "object_set obj k v = (if k = js ''__proto__'' then obj else AList.update k v obj)"

definition Object_entries :: "object \<Rightarrow> (jsstring \<times> jsstring) list" where
  "Object_entries obj =
     sort_key (\<lambda>(k, v). digits_value k) (filter (\<lambda>(k, v). is_array_index k) obj)
     @ filter (\<lambda>(k, v). \<not> is_array_index k) obj"

section \<open>URLs, requests, responses\<close>

text \<open>
  A \<^verbatim>\<open>URL\<close> object: the serialisation of everything before the query
  (\<open>href_base\<close>), the query as the list of name-value pairs of its \<^verbatim>\<open>searchParams\<close>,
  and the fragment (empty when there is none).
\<close>

record URL =
  href_base :: jsstring
  search :: "(jsstring \<times> jsstring) list"
  hash :: jsstring

text \<open>\<^verbatim>\<open>u.search = ""\<close>\<close>

definition search_clear :: "URL \<Rightarrow> URL" where
  "search_clear u = u\<lparr>search := []\<rparr>"

text \<open>\<^verbatim>\<open>u.searchParams.append(k, v)\<close>\<close>

definition searchParams_append :: "URL \<Rightarrow> jsstring \<Rightarrow> jsstring \<Rightarrow> URL" where
  "searchParams_append u k v = u\<lparr>search := search u @ [(k, v)]\<rparr>"

text \<open>\<^verbatim>\<open>params.get(name)\<close>: the value of the first pair of that name, else \<^verbatim>\<open>null\<close>.\<close>

definition searchParams_get :: "(jsstring \<times> jsstring) list \<Rightarrow> jsstring \<Rightarrow> jsstring option" where
  "searchParams_get ps name = map_of ps name"

record config =
  listen_host :: jsstring
  listen_port :: nat
  steam_openid_url :: URL
  steam_openid_params :: object

text \<open>The \<^verbatim>\<open>config\<close> of \<^verbatim>\<open>main\<close>, its object literal written with its duplicate key.\<close>

definition main_config :: config where
  "main_config =
     \<lparr>listen_host = js ''0.0.0.0'',
      listen_port = 8080,
      steam_openid_url =
        \<lparr>href_base = js ''https://steamcommunity.com/openid/login'', search = [], hash = []\<rparr>,
      steam_openid_params = object_literal
        [(js ''openid.mode'', js ''checkid_setup''),
         (js ''openid.mode'', js ''checkid_setup''),
         (js ''openid.ns'', js ''http://specs.openid.net/auth/2.0''),
         (js ''openid.identity'', js ''http://specs.openid.net/auth/2.0/identifier_select''),
         (js ''openid.claimed_id'', js ''http://specs.openid.net/auth/2.0/identifier_select''),
         (js ''openid.return_to'', js ''http://localhost:8080/auth/steam''),
         (js ''openid.realm'', js ''http://localhost:8080'')]\<rparr>"

text \<open>The incoming request \<^verbatim>\<open>i\<close>: its method \<^verbatim>\<open>i.method\<close> and its request target \<^verbatim>\<open>i.url\<close>.\<close>

record request =
  request_method :: jsstring
  url :: jsstring

text \<open>
  The outgoing response \<^verbatim>\<open>o\<close>: Node starts it with status 200 and no header;
  \<^verbatim>\<open>o.end()\<close> is called without data, so nothing is ever added to the body.
\<close>

record server_response =
  statusCode :: nat
  headers :: "(jsstring \<times> jsstring) list"
  body :: jsstring
  ended :: bool

definition new_response :: server_response where
  "new_response = \<lparr>statusCode = 200, headers = [], body = [], ended = False\<rparr>"

definition setHeader :: "server_response \<Rightarrow> jsstring \<Rightarrow> jsstring \<Rightarrow> server_response" where
  "setHeader out k v = out\<lparr>headers := AList.update k v (headers out)\<rparr>"

definition end_response :: "server_response \<Rightarrow> server_response" where
  "end_response out = out\<lparr>ended := True\<rparr>"

text \<open>
  What the provider answers to the re-validation request: its status and, when the body
  is read, the bytes of the body or the rejection of the read.
\<close>

type_synonym byte = "8 word"

record client_response =
  res_statusCode :: nat
  res_body :: "error + byte list"

text \<open>
  The runtime outside the repository, taken as parameters: the query parser of
  \<^verbatim>\<open>new URL(i.url, "http://localhost").searchParams\<close>, the serialiser \<^verbatim>\<open>URL.toString\<close>,
  the HTTP client \<^verbatim>\<open>undici.request(u, { method: "POST" })\<close> (\<open>Inl\<close> when its promise
  rejects), and the decoder \<^verbatim>\<open>Buffer.toString\<close>.
\<close>

record platform =
  searchParams_of :: "jsstring \<Rightarrow> (jsstring \<times> jsstring) list"
  URL_toString :: "URL \<Rightarrow> jsstring"
  undici_request :: "URL \<Rightarrow> error + client_response"
  Buffer_toString :: "byte list \<Rightarrow> jsstring"

text \<open>The console output, without the timestamps.\<close>

datatype log_event =
    Log_request jsstring jsstring
  | Log_parse_failure nat "byte list" error
  | Log_authenticated jsstring bool

text \<open>
  Everything one call of \<^verbatim>\<open>handle\<close> does: the response as it stands when the call is
  over, the re-validation requests sent, the console output, and the exception that
  left the function (\<^verbatim>\<open>handle\<close> is \<^verbatim>\<open>async\<close>: its promise rejects, and the server's
  callback drops that promise).
\<close>

record handled =
  out :: server_response
  sent :: "URL list"
  logged :: "log_event list"
  thrown :: "error option"

section \<open>The request handler: \<^verbatim>\<open>handle\<close>\<close>

text \<open>Lines 45 to 49: the login URL.\<close>

definition url_redir_mut :: "config \<Rightarrow> URL" where
  "url_redir_mut config =
     foldl (\<lambda>u (k, v). searchParams_append u k v)
       (search_clear (steam_openid_url config))
       (Object_entries (steam_openid_params config))"

text \<open>Lines 58 to 64: the object \<^verbatim>\<open>params_out\<close>.\<close>

definition params_out :: "(jsstring \<times> jsstring) list \<Rightarrow> object" where
  "params_out params_in =
     foldl (\<lambda>obj (k, v). if k = js ''openid.mode'' then obj else object_set obj k v)
       (object_literal [(js ''openid.mode'', js ''check_authentication'')])
       params_in"

text \<open>Lines 65 to 69: the URL of the re-validation request.\<close>

definition url_auth_check_mut :: "config \<Rightarrow> (jsstring \<times> jsstring) list \<Rightarrow> URL" where
  "url_auth_check_mut config params_in =
     foldl (\<lambda>u (k, v). searchParams_append u k v)
       (search_clear (steam_openid_url config))
       (Object_entries (params_out params_in))"

text \<open>Lines 55 to 98: the callback branch.\<close>

definition handle_auth_steam :: "platform \<Rightarrow> config \<Rightarrow> request \<Rightarrow> handled \<Rightarrow> handled" where
  "handle_auth_steam P config i h =
     (let params_in = searchParams_of P (url i)
      in case parse_oid_claimed_id_steam (searchParams_get params_in (js ''openid.claimed_id'')) of
           Inl e \<Rightarrow> h\<lparr>thrown := Some e\<rparr>
         | Inr claimed_steam_id \<Rightarrow>
             (let u = url_auth_check_mut config params_in;
                  h1 = h\<lparr>sent := sent h @ [u]\<rparr>
              in case undici_request P u of
                   Inl e \<Rightarrow> h1\<lparr>thrown := Some e\<rparr>
                 | Inr response \<Rightarrow>
                     if res_statusCode response \<noteq> 200 then
                       h1\<lparr>out := end_response ((out h1)\<lparr>statusCode := 500\<rparr>)\<rparr>
                     else
                       (case res_body response of
                          Inl e \<Rightarrow> h1\<lparr>thrown := Some e\<rparr>
                        | Inr buf \<Rightarrow>
                            (case parse_oid_check_authentication (Buffer_toString P buf) of
                               Inl err_parse \<Rightarrow>
                                 h1\<lparr>logged := logged h1
                                        @ [Log_parse_failure (res_statusCode response) buf err_parse],
                                    out := end_response ((out h1)\<lparr>statusCode := 500\<rparr>)\<rparr>
                             | Inr r \<Rightarrow>
                                 h1\<lparr>out := end_response
                                        ((out h1)\<lparr>statusCode := (if is_valid r then 200 else 401)\<rparr>),
                                    logged := logged h1
                                        @ [Log_authenticated claimed_steam_id (is_valid r)]\<rparr>))))"

definition handle :: "platform \<Rightarrow> config \<Rightarrow> request \<Rightarrow> handled" where
  "handle P config i =
     (let h = \<lparr>out = new_response, sent = [], logged = [Log_request (request_method i) (url i)],
               thrown = None\<rparr>
      in if url i = js ''/'' then
           h\<lparr>out := end_response
                ((setHeader (out h) (js ''Location'') (URL_toString P (url_redir_mut config)))
                   \<lparr>statusCode := 303\<rparr>)\<rparr>
         else if startsWith (url i) (js ''/auth/steam'') then
           handle_auth_steam P config i h
         else if url i = js ''/favicon.ico'' then
           h\<lparr>out := end_response ((out h)\<lparr>statusCode := 204\<rparr>)\<rparr>
         else
           h\<lparr>out := end_response ((out h)\<lparr>statusCode := 404\<rparr>)\<rparr>)"

section \<open>The serialiser of the URL Standard\<close>

text \<open>
  \<^verbatim>\<open>URL.toString\<close> belongs to the runtime and is a parameter of \<open>handle\<close> below. This
  is what the URL Standard prescribes for a URL whose query was written through
  \<^verbatim>\<open>searchParams\<close>, as both URLs of \<^verbatim>\<open>handle\<close> are: the part before the query, \<^verbatim>\<open>?\<close>
  and the \<^verbatim>\<open>application/x-www-form-urlencoded\<close> serialisation of the pairs, \<^verbatim>\<open>#\<close> and the
  fragment when there is one. Names and values are taken as scalar values (a surrogate
  without its partner becomes U+FFFD), encoded in UTF-8, and every byte other than an
  ASCII letter, a digit, \<^verbatim>\<open>*\<close>, \<^verbatim>\<open>-\<close>, \<^verbatim>\<open>.\<close> and \<^verbatim>\<open>_\<close> is percent-encoded, a space
  becoming \<^verbatim>\<open>+\<close>.
\<close>

definition is_lead_surrogate :: "code_unit \<Rightarrow> bool" where
  "is_lead_surrogate c = (0xD800 \<le> c \<and> c \<le> 0xDBFF)"

definition is_trail_surrogate :: "code_unit \<Rightarrow> bool" where
  "is_trail_surrogate c = (0xDC00 \<le> c \<and> c \<le> 0xDFFF)"

fun scalar_values :: "jsstring \<Rightarrow> nat list" where
  "scalar_values [] = []"
| "scalar_values [c] =
     (if is_lead_surrogate c \<or> is_trail_surrogate c then [0xFFFD] else [unat c])"
| "scalar_values (c # d # cs) =
     (if is_lead_surrogate c \<and> is_trail_surrogate d then
        (0x10000 + (unat c - 0xD800) * 0x400 + (unat d - 0xDC00)) # scalar_values cs
      else if is_lead_surrogate c \<or> is_trail_surrogate c then 0xFFFD # scalar_values (d # cs)
      else unat c # scalar_values (d # cs))"

definition utf8_encode :: "nat \<Rightarrow> nat list" where
  "utf8_encode n =
     (if n < 0x80 then [n]
      else if n < 0x800 then [0xC0 + n div 0x40, 0x80 + n mod 0x40]
      else if n < 0x10000 then
        [0xE0 + n div 0x1000, 0x80 + n div 0x40 mod 0x40, 0x80 + n mod 0x40]
      else
        [0xF0 + n div 0x40000, 0x80 + n div 0x1000 mod 0x40, 0x80 + n div 0x40 mod 0x40,
         0x80 + n mod 0x40])"

definition hex_digit :: "nat \<Rightarrow> code_unit" where
  "hex_digit d = (if d < 10 then of_nat (48 + d) else of_nat (55 + d))"

definition urlencode_byte :: "nat \<Rightarrow> jsstring" where
  "urlencode_byte b =
     (if b = 0x20 then js ''+''
      else if b = 0x2A \<or> b = 0x2D \<or> b = 0x2E \<or> b = 0x5F
              \<or> (0x30 \<le> b \<and> b \<le> 0x39) \<or> (0x41 \<le> b \<and> b \<le> 0x5A)
              \<or> (0x61 \<le> b \<and> b \<le> 0x7A) then [of_nat b]
      else js ''%'' @ [hex_digit (b div 16), hex_digit (b mod 16)])"

definition urlencode :: "jsstring \<Rightarrow> jsstring" where
  "urlencode s = concat (map urlencode_byte (concat (map utf8_encode (scalar_values s))))"

fun urlencoded_serialise :: "(jsstring \<times> jsstring) list \<Rightarrow> jsstring" where
  "urlencoded_serialise [] = []"
| "urlencoded_serialise [(k, v)] = urlencode k @ js ''='' @ urlencode v"
| "urlencoded_serialise ((k, v) # kvs) =
     urlencode k @ js ''='' @ urlencode v @ js ''&'' @ urlencoded_serialise kvs"

definition URL_serialise :: "URL \<Rightarrow> jsstring" where
  "URL_serialise u =
     href_base u
     @ (if search u = [] then [] else js ''?'' @ urlencoded_serialise (search u))
     @ (if hash u = [] then [] else js ''#'' @ hash u)"

section \<open>A platform for concrete scenarios\<close>

text \<open>
  The concrete runs below need a runtime. In \<open>scenario\<close> the query of the incoming
  request parses to \<open>params_in\<close>, the provider gives \<open>answer\<close> to the re-validation
  request, URLs are printed by \<open>URL_serialise\<close>, and a buffer of ASCII bytes is
  decoded byte by byte. The theorems themselves hold of every platform.
\<close>

definition scenario :: "(jsstring \<times> jsstring) list \<Rightarrow> error + client_response \<Rightarrow> platform" where
  "scenario params_in answer =
     \<lparr>searchParams_of = (\<lambda>target. params_in),
      URL_toString = URL_serialise,
      undici_request = (\<lambda>u. answer),
      Buffer_toString = map ucast\<rparr>"

text \<open>The bytes of an ASCII text, for the body of the provider's answer.\<close>

definition bytes :: "string \<Rightarrow> byte list" where
  "bytes s = map of_char s"

section \<open>Facts about the string operations\<close>

lemma js_simps: "js [] = []" "js (c # s) = of_char c # js s"
  by (simp_all add: js_def)

lemma lastIndexOf_lower: "- 1 \<le> lastIndexOf s c"
  by (induction s) (auto simp: Let_def)

lemma lastIndexOf_upper: "lastIndexOf s c < int (length s)"
  by (induction s) (auto simp: Let_def)

lemma lastIndexOf_absent: "c \<notin> set s \<Longrightarrow> lastIndexOf s c = - 1"
  by (induction s) (auto simp: Let_def)

lemma lastIndexOf_present: "c \<in> set s \<Longrightarrow> 0 \<le> lastIndexOf s c"
  by (induction s) (auto simp: Let_def)

lemma lastIndexOf_last: "c \<notin> set seg \<Longrightarrow> lastIndexOf (p @ c # seg) c = int (length p)"
  by (induction p) (auto simp: Let_def lastIndexOf_absent)

lemma substring_to_end:
  "0 \<le> a \<Longrightarrow> a \<le> int (length s) \<Longrightarrow> substring s a (int (length s)) = drop (nat a) s"
  by (simp add: substring_def Let_def min_def max_def)

lemma substring_after_prefix:
  "substring (p @ v) (int (length p)) (int (length (p @ v))) = v"
  by (subst substring_to_end) simp_all

lemma substring_after_separator:
  "substring (p @ c # seg) (int (length p) + 1) (int (length (p @ c # seg))) = seg"
  by (subst substring_to_end) (simp_all add: nat_add_distrib)

section \<open>The assertions of the module\<close>

text \<open>
  \<^verbatim>\<open>demo.mjs\<close> asserts two facts when it is loaded (lines 136 to 143 and 158 to 162);
  both hold of the model.
\<close>

lemma module_assertion_check_authentication:
  "parse_oid_check_authentication
     (js ''ns:http://specs.openid.net/auth/2.0'' @ [LF] @ js ''is_valid:false'' @ [LF])
   = Inr \<lparr>ns = js ''http://specs.openid.net/auth/2.0'', is_valid = False\<rparr>"
  by (simp add: parse_oid_check_authentication_def entries_of_def parse_entry_def js_def
      LF_def startsWith_def substring_def result_empty_def)

lemma module_assertion_claimed_id:
  "parse_oid_claimed_id_steam
     (Some (js ''https://steamcommunity.com/openid/id/00000000000000000''))
   = Inr (js ''00000000000000000'')"
  by (simp add: parse_oid_claimed_id_steam_def js_def SLASH_def substring_def)

section \<open>Identity Extractor\<close>

text \<open>
  C6. An input \<open>pre @ SLASH # seg\<close> has the form \<^verbatim>\<open><prefix>/<17 characters>\<close> when
  \<open>pre\<close> is not empty, \<open>seg\<close> has 17 code units and \<open>seg\<close> is the segment after the
  last slash of the input, that is, holds no slash itself. On every such input the
  extractor succeeds and returns \<open>seg\<close> as it is. Nothing is assumed of the 17 code
  units beyond that: they need not be digits.
\<close>

theorem extractor_succeeds:
  assumes "pre \<noteq> []" and "length seg = 17" and "SLASH \<notin> set seg"
  shows "parse_oid_claimed_id_steam (Some (pre @ SLASH # seg)) = Inr seg"
proof -
  have idx: "lastIndexOf (pre @ SLASH # seg) SLASH = int (length pre)"
    using assms(3) by (rule lastIndexOf_last)
  have pos: "0 < int (length pre)"
    using assms(1) by simp
  show ?thesis
    unfolding parse_oid_claimed_id_steam_def
    using pos assms(2)
    by (simp add: idx substring_after_separator Let_def del: length_append)
qed

theorem extractor_succeeds_witness:
  "js ''id='' \<noteq> [] \<and> length (js ''7656119xxxxxxxx!?'') = 17
   \<and> SLASH \<notin> set (js ''7656119xxxxxxxx!?'')
   \<and> parse_oid_claimed_id_steam (Some (js ''id='' @ SLASH # js ''7656119xxxxxxxx!?''))
       = Inr (js ''7656119xxxxxxxx!?'')"
  using extractor_succeeds [of "js ''id=''" "js ''7656119xxxxxxxx!?''"]
  by (simp add: js_def SLASH_def)

text \<open>
  C7. The extractor fails, with the exception named, on a missing input
  (\<^verbatim>\<open>null\<close>), on every input without a slash (the empty string among them), on every
  input whose only slash is its first code unit, and on every input whose segment after
  the last slash does not have exactly 17 code units.
\<close>

theorem extractor_fails:
  "parse_oid_claimed_id_steam None = Inl TypeError
   \<and> (SLASH \<notin> set s \<longrightarrow>
        parse_oid_claimed_id_steam (Some s) = Inl (AssertionError (js ''idx is gt 0'')))
   \<and> (SLASH \<notin> set seg \<longrightarrow>
        parse_oid_claimed_id_steam (Some (SLASH # seg)) = Inl (AssertionError (js ''idx is gt 0'')))
   \<and> (SLASH \<notin> set seg' \<and> length seg' \<noteq> 17 \<longrightarrow>
        parse_oid_claimed_id_steam (Some (p @ SLASH # seg')) =
          Inl (if p = [] then AssertionError (js ''idx is gt 0'')
               else Error (js ''Could not parse Steam ID from '' @ [APOSTROPHE]
                           @ js ''claimed_id'' @ [APOSTROPHE])))"
proof (intro conjI impI)
  show "parse_oid_claimed_id_steam None = Inl TypeError"
    by (simp add: parse_oid_claimed_id_steam_def)
  show "parse_oid_claimed_id_steam (Some s) = Inl (AssertionError (js ''idx is gt 0''))"
    if "SLASH \<notin> set s"
    using that by (simp add: parse_oid_claimed_id_steam_def lastIndexOf_absent)
  show "parse_oid_claimed_id_steam (Some (SLASH # seg)) = Inl (AssertionError (js ''idx is gt 0''))"
    if "SLASH \<notin> set seg"
    using lastIndexOf_last [OF that, of "[]"]
    by (simp add: parse_oid_claimed_id_steam_def del: lastIndexOf.simps)
  show "parse_oid_claimed_id_steam (Some (p @ SLASH # seg')) =
          Inl (if p = [] then AssertionError (js ''idx is gt 0'')
               else Error (js ''Could not parse Steam ID from '' @ [APOSTROPHE]
                           @ js ''claimed_id'' @ [APOSTROPHE]))"
    if h: "SLASH \<notin> set seg' \<and> length seg' \<noteq> 17"
  proof -
    have idx: "lastIndexOf (p @ SLASH # seg') SLASH = int (length p)"
      using h by (simp add: lastIndexOf_last)
    show ?thesis
      unfolding parse_oid_claimed_id_steam_def
      using h by (simp add: idx substring_after_separator Let_def del: length_append)
  qed
qed

theorem extractor_fails_witness:
  "parse_oid_claimed_id_steam None = Inl TypeError
   \<and> SLASH \<notin> set (js ''steam'')
   \<and> parse_oid_claimed_id_steam (Some (js ''steam'')) = Inl (AssertionError (js ''idx is gt 0''))
   \<and> parse_oid_claimed_id_steam (Some []) = Inl (AssertionError (js ''idx is gt 0''))
   \<and> SLASH \<notin> set (js ''00000000000000000'')
   \<and> parse_oid_claimed_id_steam (Some (SLASH # js ''00000000000000000''))
       = Inl (AssertionError (js ''idx is gt 0''))
   \<and> length (js ''0000'') \<noteq> 17
   \<and> parse_oid_claimed_id_steam (Some (js ''https://steamcommunity.com/openid/id'' @ SLASH # js ''0000''))
       = Inl (Error (js ''Could not parse Steam ID from '' @ [APOSTROPHE]
                     @ js ''claimed_id'' @ [APOSTROPHE]))"
  using extractor_fails [of "js ''steam''" "js ''00000000000000000''" "js ''0000''"
      "js ''https://steamcommunity.com/openid/id''"]
    extractor_fails [of "[]" "[]" "[]" "[]"]
  by (simp add: js_def SLASH_def)

section \<open>Facts about the Response Parser\<close>

lemma startsWith_own_prefix: "startsWith (p @ v) p"
  by (simp add: startsWith_def)

lemma startsWith_ns_is_valid: "\<not> startsWith (js ''is_valid:'' @ v) (js ''ns:'')"
  by (simp add: startsWith_def js_def)

lemma parse_entry_ns: "parse_entry r (js ''ns:'' @ v) = Inr (r\<lparr>r_ns := Some v\<rparr>)"
  unfolding parse_entry_def
  by (simp only: startsWith_own_prefix substring_after_prefix if_True)

lemma parse_entry_is_valid:
  "parse_entry r (js ''is_valid:'' @ v) =
     (if v = js ''true'' then Inr (r\<lparr>r_is_valid := Some True\<rparr>)
      else if v = js ''false'' then Inr (r\<lparr>r_is_valid := Some False\<rparr>)
      else Inl (Error (js ''Could not parse value '' @ [APOSTROPHE] @ js ''is_valid''
                       @ [APOSTROPHE] @ js '' as boolean'')))"
  unfolding parse_entry_def
  by (simp only: startsWith_own_prefix startsWith_ns_is_valid substring_after_prefix
      if_True if_False Let_def)

lemma parse_entry_unknown:
  "\<not> startsWith e (js ''ns:'') \<Longrightarrow> \<not> startsWith e (js ''is_valid:'') \<Longrightarrow>
   parse_entry r e = Inl (Error (js ''Unknown entry '' @ [APOSTROPHE] @ e @ [APOSTROPHE]))"
  by (simp add: parse_entry_def)

lemma startsWith_decompose: "startsWith e p \<Longrightarrow> \<exists>v. e = p @ v"
  by (auto simp: startsWith_def prefix_def)

lemma split_js_not_Nil: "split_js s c \<noteq> []"
  by (induction s) (auto split: list.splits)

lemma split_js_line: "c \<notin> set l \<Longrightarrow> split_js l c = [l]"
  by (induction l) auto

lemma split_js_append: "c \<notin> set l \<Longrightarrow> split_js (l @ c # rest) c = l # split_js rest c"
  by (induction l) auto

lemma split_js_join:
  "ls \<noteq> [] \<Longrightarrow> \<forall>l\<in>set ls. c \<notin> set l \<Longrightarrow> split_js (join_js ls c) c = ls"
proof (induction ls c rule: join_js.induct)
  case (1 c)
  then show ?case by simp
next
  case (2 l c)
  then show ?case by (simp add: split_js_line)
next
  case (3 l v va c)
  then show ?case by (simp add: split_js_append)
qed

lemma split_js_lines_free: "l \<in> set (split_js s c) \<Longrightarrow> c \<notin> set l"
  by (induction s arbitrary: l) (auto split: if_splits list.splits)

lemma join_js_split: "join_js (split_js s c) c = s"
proof (induction s)
  case Nil
  then show ?case by simp
next
  case (Cons x s)
  show ?case
  proof (cases "x = c")
    case True
    then show ?thesis
      using Cons split_js_not_Nil [of s c] by (cases "split_js s c") auto
  next
    case False
    then show ?thesis
      using Cons split_js_not_Nil [of s c]
      by (cases "split_js s c"; cases "tl (split_js s c)") auto
  qed
qed

lemma entries_of_join:
  "\<forall>l\<in>set ls. LF \<notin> set l \<Longrightarrow> entries_of (join_js ls LF) = filter (\<lambda>n. n \<noteq> []) ls"
  by (cases "ls = []") (simp_all add: entries_of_def split_js_join)


lemma parse_entry_error: "parse_entry r e = Inl x \<Longrightarrow> \<exists>m. x = Error m"
  by (auto simp: parse_entry_def Let_def split: if_splits)

lemma parse_entry_state_free: "isl (parse_entry r e) = isl (parse_entry r' e)"
  by (simp add: parse_entry_def Let_def)

lemma parse_entries_error: "parse_entries r es = Inl x \<Longrightarrow> \<exists>m. x = Error m"
proof (induction es arbitrary: r)
  case Nil
  then show ?case by simp
next
  case (Cons e es)
  then show ?case
    by (cases "parse_entry r e") (auto dest: parse_entry_error)
qed

lemma parse_entries_append:
  "parse_entries r (xs @ ys) =
     (case parse_entries r xs of Inl e \<Rightarrow> Inl e | Inr r' \<Rightarrow> parse_entries r' ys)"
  by (induction xs arbitrary: r) (auto split: sum.splits)

lemma parse_entries_bad_entry:
  "e \<in> set es \<Longrightarrow> isl (parse_entry r0 e) \<Longrightarrow> \<exists>m. parse_entries r es = Inl (Error m)"
proof (induction es arbitrary: r)
  case Nil
  then show ?case by simp
next
  case (Cons a es)
  show ?case
  proof (cases "parse_entry r a")
    case (Inl x)
    then show ?thesis
      using parse_entry_error [of r a x] by auto
  next
    case (Inr r')
    then have "a \<noteq> e"
      using Cons.prems(2) parse_entry_state_free [of r0 e r] by auto
    then have "e \<in> set es"
      using Cons.prems(1) by simp
    then show ?thesis
      using Cons.IH [of r'] Cons.prems(2) Inr by simp
  qed
qed

lemma parse_entries_keeps_ns:
  "parse_entries r es = Inr r' \<Longrightarrow> \<forall>l\<in>set es. \<not> startsWith l (js ''ns:'') \<Longrightarrow>
   r_ns r' = r_ns r"
proof (induction es arbitrary: r)
  case Nil
  then show ?case by simp
next
  case (Cons e es)
  then show ?case
    by (cases "parse_entry r e") (auto simp: parse_entry_def Let_def split: if_splits)
qed

lemma parse_entries_keeps_is_valid:
  "parse_entries r es = Inr r' \<Longrightarrow> \<forall>l\<in>set es. \<not> startsWith l (js ''is_valid:'') \<Longrightarrow>
   r_is_valid r' = r_is_valid r"
proof (induction es arbitrary: r)
  case Nil
  then show ?case by simp
next
  case (Cons e es)
  then show ?case
    by (cases "parse_entry r e") (auto simp: parse_entry_def Let_def split: if_splits)
qed

lemma is_valid_literals:
  "js ''is_valid:true'' = js ''is_valid:'' @ js ''true''"
  "js ''is_valid:false'' = js ''is_valid:'' @ js ''false''"
  by (simp_all add: js_def)

lemma parse_entries_recognised:
  "\<forall>l\<in>set es. startsWith l (js ''ns:'') \<or> l = js ''is_valid:true'' \<or> l = js ''is_valid:false''
   \<Longrightarrow> \<exists>r'. parse_entries r es = Inr r'"
proof (induction es arbitrary: r)
  case Nil
  then show ?case by simp
next
  case (Cons e es)
  have "\<exists>r1. parse_entry r e = Inr r1"
  proof -
    consider (n) "startsWith e (js ''ns:'')" | (t) "e = js ''is_valid:true''"
      | (f) "e = js ''is_valid:false''"
      using Cons.prems by auto
    then show ?thesis
    proof cases
      case n
      then show ?thesis
        using startsWith_decompose [OF n] parse_entry_ns by auto
    next
      case t
      then show ?thesis
        by (simp add: is_valid_literals parse_entry_is_valid)
    next
      case f
      then show ?thesis
        by (simp add: is_valid_literals parse_entry_is_valid)
    qed
  qed
  then show ?case
    using Cons by auto
qed

section \<open>Response Parser\<close>

lemma true_not_false: "js ''true'' \<noteq> js ''false''"
  by (simp add: js_def)

lemma parse_two_lines:
  "w = js ''true'' \<or> w = js ''false'' \<Longrightarrow>
   parse_entries result_empty [js ''ns:'' @ v, js ''is_valid:'' @ w]
     = Inr \<lparr>r_ns = Some v, r_is_valid = Some (w = js ''true'')\<rparr>
   \<and> parse_entries result_empty [js ''is_valid:'' @ w, js ''ns:'' @ v]
     = Inr \<lparr>r_ns = Some v, r_is_valid = Some (w = js ''true'')\<rparr>"
  by (auto simp: parse_entry_ns parse_entry_is_valid result_empty_def true_not_false)

text \<open>
  C3. A response text is written as its lines, \<open>join_js ls LF\<close>, no line holding a line
  feed. When the non-empty lines are exactly an \<^verbatim>\<open>ns\<close> line and an \<^verbatim>\<open>is_valid\<close> line
  whose value is the literal \<^verbatim>\<open>true\<close> or \<^verbatim>\<open>false\<close>, in either order, the parser
  succeeds; \<^verbatim>\<open>ns\<close> is everything after the first colon of the \<^verbatim>\<open>ns\<close> line (\<open>v\<close> is
  arbitrary, colons included) and \<^verbatim>\<open>is_valid\<close> is the boolean. The result is the same
  for both orders.
\<close>

theorem parser_round_trip:
  assumes "\<forall>l\<in>set ls. LF \<notin> set l"
    and "filter (\<lambda>n. n \<noteq> []) ls = [js ''ns:'' @ v, js ''is_valid:'' @ w]
         \<or> filter (\<lambda>n. n \<noteq> []) ls = [js ''is_valid:'' @ w, js ''ns:'' @ v]"
    and "w = js ''true'' \<or> w = js ''false''"
  shows "parse_oid_check_authentication (join_js ls LF)
         = Inr \<lparr>ns = v, is_valid = (w = js ''true'')\<rparr>"
proof -
  have "parse_entries result_empty (entries_of (join_js ls LF))
        = Inr \<lparr>r_ns = Some v, r_is_valid = Some (w = js ''true'')\<rparr>"
    using assms(2) parse_two_lines [OF assms(3), of v]
    by (auto simp: entries_of_join [OF assms(1)])
  then show ?thesis
    by (simp add: parse_oid_check_authentication_def)
qed

theorem parser_round_trip_witness:
  "parse_oid_check_authentication
     (js ''ns:http://specs.openid.net/auth/2.0'' @ [LF] @ js ''is_valid:true'' @ [LF])
   = Inr \<lparr>ns = js ''http://specs.openid.net/auth/2.0'', is_valid = True\<rparr>
   \<and> parse_oid_check_authentication
     ([LF] @ js ''is_valid:true'' @ [LF, LF] @ js ''ns:http://specs.openid.net/auth/2.0'')
   = Inr \<lparr>ns = js ''http://specs.openid.net/auth/2.0'', is_valid = True\<rparr>"
  using parser_round_trip [of "[js ''ns:http://specs.openid.net/auth/2.0'', js ''is_valid:true'', []]"
      "js ''http://specs.openid.net/auth/2.0''" "js ''true''"]
    parser_round_trip [of "[[], js ''is_valid:true'', [], js ''ns:http://specs.openid.net/auth/2.0'']"
      "js ''http://specs.openid.net/auth/2.0''" "js ''true''"]
  by (simp add: js_def LF_def)

text \<open>
  C4. The parser fails with an \<^verbatim>\<open>Error\<close>, and so returns no result at all, on the empty
  input; on every text with a non-empty line that starts with neither \<^verbatim>\<open>ns:\<close> nor
  \<^verbatim>\<open>is_valid:\<close>; on every text with an \<^verbatim>\<open>is_valid\<close> line whose value is not exactly
  \<^verbatim>\<open>true\<close> or \<^verbatim>\<open>false\<close>; and on every text that has no \<^verbatim>\<open>ns\<close> line or no
  \<^verbatim>\<open>is_valid\<close> line.
\<close>

theorem parser_fails:
  "parse_oid_check_authentication []
     = Inl (Error (js ''Expected entries '' @ [APOSTROPHE] @ js ''ns'' @ [APOSTROPHE]
                   @ js '' and '' @ [APOSTROPHE] @ js ''is_valid'' @ [APOSTROPHE]))
   \<and> (l \<in> set (split_js t1 LF) \<and> l \<noteq> []
        \<and> \<not> startsWith l (js ''ns:'') \<and> \<not> startsWith l (js ''is_valid:'')
      \<longrightarrow> (\<exists>m. parse_oid_check_authentication t1 = Inl (Error m)))
   \<and> (js ''is_valid:'' @ w \<in> set (split_js t2 LF) \<and> w \<noteq> js ''true'' \<and> w \<noteq> js ''false''
      \<longrightarrow> (\<exists>m. parse_oid_check_authentication t2 = Inl (Error m)))
   \<and> ((\<forall>l\<in>set (split_js t3 LF). \<not> startsWith l (js ''ns:''))
        \<or> (\<forall>l\<in>set (split_js t3 LF). \<not> startsWith l (js ''is_valid:''))
      \<longrightarrow> (\<exists>m. parse_oid_check_authentication t3 = Inl (Error m)))"
proof (intro conjI impI)
  show "parse_oid_check_authentication []
     = Inl (Error (js ''Expected entries '' @ [APOSTROPHE] @ js ''ns'' @ [APOSTROPHE]
                   @ js '' and '' @ [APOSTROPHE] @ js ''is_valid'' @ [APOSTROPHE]))"
    by (simp add: parse_oid_check_authentication_def entries_of_def result_empty_def)
next
  assume h: "l \<in> set (split_js t1 LF) \<and> l \<noteq> []
        \<and> \<not> startsWith l (js ''ns:'') \<and> \<not> startsWith l (js ''is_valid:'')"
  then have mem: "l \<in> set (entries_of t1)"
    by (simp add: entries_of_def)
  have bad: "isl (parse_entry result_empty l)"
    using h by (simp add: parse_entry_unknown)
  obtain m where "parse_entries result_empty (entries_of t1) = Inl (Error m)"
    using parse_entries_bad_entry [OF mem bad] by blast
  then show "\<exists>m. parse_oid_check_authentication t1 = Inl (Error m)"
    by (simp add: parse_oid_check_authentication_def)
next
  assume h: "js ''is_valid:'' @ w \<in> set (split_js t2 LF) \<and> w \<noteq> js ''true'' \<and> w \<noteq> js ''false''"
  then have mem: "js ''is_valid:'' @ w \<in> set (entries_of t2)"
    by (simp add: entries_of_def js_def)
  have bad: "isl (parse_entry result_empty (js ''is_valid:'' @ w))"
    using h by (simp add: parse_entry_is_valid)
  obtain m where "parse_entries result_empty (entries_of t2) = Inl (Error m)"
    using parse_entries_bad_entry [OF mem bad] by blast
  then show "\<exists>m. parse_oid_check_authentication t2 = Inl (Error m)"
    by (simp add: parse_oid_check_authentication_def)
next
  assume h: "(\<forall>l\<in>set (split_js t3 LF). \<not> startsWith l (js ''ns:''))
        \<or> (\<forall>l\<in>set (split_js t3 LF). \<not> startsWith l (js ''is_valid:''))"
  show "\<exists>m. parse_oid_check_authentication t3 = Inl (Error m)"
  proof (cases "parse_entries result_empty (entries_of t3)")
    case (Inl x)
    then show ?thesis
      using parse_entries_error [OF Inl] by (auto simp: parse_oid_check_authentication_def)
  next
    case (Inr r)
    have "r_ns r = None \<or> r_is_valid r = None"
      using h parse_entries_keeps_ns [OF Inr] parse_entries_keeps_is_valid [OF Inr]
      by (auto simp: entries_of_def result_empty_def)
    then show ?thesis
      using Inr by (auto simp: parse_oid_check_authentication_def split: option.splits)
  qed
qed

theorem parser_fails_witness:
  "parse_oid_check_authentication []
     = Inl (Error (js ''Expected entries '' @ [APOSTROPHE] @ js ''ns'' @ [APOSTROPHE]
                   @ js '' and '' @ [APOSTROPHE] @ js ''is_valid'' @ [APOSTROPHE]))
   \<and> js ''mode:id_res'' \<in> set (split_js (js ''ns:a'' @ [LF] @ js ''mode:id_res'' @ [LF]) LF)
   \<and> (\<exists>m. parse_oid_check_authentication (js ''ns:a'' @ [LF] @ js ''mode:id_res'' @ [LF])
            = Inl (Error m))
   \<and> js ''is_valid:'' @ js ''True'' \<in> set (split_js (js ''ns:a'' @ [LF] @ js ''is_valid:True'') LF)
   \<and> (\<exists>m. parse_oid_check_authentication (js ''ns:a'' @ [LF] @ js ''is_valid:True'')
            = Inl (Error m))
   \<and> (\<exists>m. parse_oid_check_authentication (js ''is_valid:true'' @ [LF]) = Inl (Error m))"
  using parser_fails [of "js ''mode:id_res''" "js ''ns:a'' @ [LF] @ js ''mode:id_res'' @ [LF]"
      "js ''True''" "js ''ns:a'' @ [LF] @ js ''is_valid:True''" "js ''is_valid:true'' @ [LF]"]
  by (simp add: js_def LF_def startsWith_def)

lemma ns_line_not_empty: "js ''ns:'' \<noteq> []" "js ''ns:'' @ v \<noteq> []"
  by (simp_all add: js_def)

lemma is_valid_line_not_empty: "js ''is_valid:'' \<noteq> []" "js ''is_valid:'' @ w \<noteq> []"
  by (simp_all add: js_def)

lemma parse_entries_last_ns:
  assumes "parse_entries r0 (xs @ (js ''ns:'' @ v) # ys) = Inr r"
    and "\<forall>l\<in>set ys. \<not> startsWith l (js ''ns:'')"
  shows "r_ns r = Some v"
proof -
  obtain r1 where r1: "parse_entries r0 xs = Inr r1"
    and rest: "parse_entries r1 ((js ''ns:'' @ v) # ys) = Inr r"
    using assms(1) by (auto simp: parse_entries_append split: sum.splits)
  from rest have "parse_entries (r1\<lparr>r_ns := Some v\<rparr>) ys = Inr r"
    by (simp add: parse_entry_ns)
  then show ?thesis
    using parse_entries_keeps_ns [OF _ assms(2)] by fastforce
qed

lemma parse_entries_last_is_valid:
  assumes "parse_entries r0 (xs @ (js ''is_valid:'' @ w) # ys) = Inr r"
    and "\<forall>l\<in>set ys. \<not> startsWith l (js ''is_valid:'')"
  shows "r_is_valid r = Some (w = js ''true'')"
proof -
  obtain r1 where r1: "parse_entries r0 xs = Inr r1"
    and rest: "parse_entries r1 ((js ''is_valid:'' @ w) # ys) = Inr r"
    using assms(1) by (auto simp: parse_entries_append split: sum.splits)
  from rest have "parse_entries (r1\<lparr>r_is_valid := Some (w = js ''true'')\<rparr>) ys = Inr r"
    by (auto simp: parse_entry_is_valid true_not_false split: if_splits)
  then show ?thesis
    using parse_entries_keeps_is_valid [OF _ assms(2)] by fastforce
qed

text \<open>
  C9, as amended. A repeated key is not rejected. When every non-empty line of the
  text is an \<^verbatim>\<open>ns\<close> line or an \<^verbatim>\<open>is_valid\<close> line with the literal \<^verbatim>\<open>true\<close> or
  \<^verbatim>\<open>false\<close>, and each of the two keys occurs at least once, the parser succeeds, and
  the value returned for each key is that of its last line: \<open>b\<close> is what follows the
  last \<^verbatim>\<open>ns\<close> line and \<open>d\<close> what follows the last \<^verbatim>\<open>is_valid\<close> line.
\<close>

theorem parser_duplicates_last_wins:
  assumes "\<forall>l\<in>set ls. LF \<notin> set l"
    and "\<forall>l\<in>set ls. l = [] \<or> startsWith l (js ''ns:'')
           \<or> l = js ''is_valid:true'' \<or> l = js ''is_valid:false''"
    and "ls = a @ (js ''ns:'' @ v) # b" and "\<forall>l\<in>set b. \<not> startsWith l (js ''ns:'')"
    and "ls = c @ (js ''is_valid:'' @ w) # d" and "\<forall>l\<in>set d. \<not> startsWith l (js ''is_valid:'')"
  shows "parse_oid_check_authentication (join_js ls LF)
         = Inr \<lparr>ns = v, is_valid = (w = js ''true'')\<rparr>"
proof -
  let ?es = "filter (\<lambda>n. n \<noteq> []) ls"
  have "\<forall>l\<in>set ?es. startsWith l (js ''ns:'') \<or> l = js ''is_valid:true'' \<or> l = js ''is_valid:false''"
    using assms(2) by auto
  then obtain r where r: "parse_entries result_empty ?es = Inr r"
    using parse_entries_recognised by blast
  have e1: "?es = filter (\<lambda>n. n \<noteq> []) a @ (js ''ns:'' @ v) # filter (\<lambda>n. n \<noteq> []) b"
    by (simp add: assms(3) ns_line_not_empty)
  have e2: "?es = filter (\<lambda>n. n \<noteq> []) c @ (js ''is_valid:'' @ w) # filter (\<lambda>n. n \<noteq> []) d"
    by (simp add: assms(5) is_valid_line_not_empty)
  have n: "r_ns r = Some v"
    using r assms(4) parse_entries_last_ns [of result_empty "filter (\<lambda>n. n \<noteq> []) a" v "filter (\<lambda>n. n \<noteq> []) b" r]
    unfolding e1 by simp
  have i: "r_is_valid r = Some (w = js ''true'')"
    using r assms(6) parse_entries_last_is_valid [of result_empty "filter (\<lambda>n. n \<noteq> []) c" w "filter (\<lambda>n. n \<noteq> []) d" r]
    unfolding e2 by simp
  show ?thesis
    using r n i by (simp add: parse_oid_check_authentication_def entries_of_join [OF assms(1)])
qed

theorem parser_duplicates_last_wins_witness:
  "parse_oid_check_authentication
     (js ''ns:first'' @ [LF] @ js ''is_valid:true'' @ [LF] @ js ''ns:second'' @ [LF]
      @ js ''is_valid:false'' @ [LF])
   = Inr \<lparr>ns = js ''second'', is_valid = False\<rparr>"
  using parser_duplicates_last_wins [of
      "[js ''ns:first'', js ''is_valid:true'', js ''ns:second'', js ''is_valid:false'', []]"
      "[js ''ns:first'', js ''is_valid:true'']" "js ''second''" "[js ''is_valid:false'', []]"
      "[js ''ns:first'', js ''is_valid:true'', js ''ns:second'']" "js ''false''" "[[]]"]
  by (simp add: js_def LF_def startsWith_def)

text \<open>
  C9 as stated is false: both keys occurring and every \<^verbatim>\<open>is_valid\<close> value being a
  literal do not suffice, since a line with any other key still makes the parser throw.
  Here \<^verbatim>\<open>ns\<close> occurs twice, \<^verbatim>\<open>is_valid\<close> once with the value \<^verbatim>\<open>true\<close>, and the
  fourth line is \<^verbatim>\<open>signed:mode\<close>.
\<close>

theorem parser_duplicates_counterexample:
  "entries_of (js ''ns:first'' @ [LF] @ js ''ns:second'' @ [LF] @ js ''is_valid:true'' @ [LF]
               @ js ''signed:mode'')
     = [js ''ns:first'', js ''ns:second'', js ''is_valid:true'', js ''signed:mode'']
   \<and> parse_oid_check_authentication
       (js ''ns:first'' @ [LF] @ js ''ns:second'' @ [LF] @ js ''is_valid:true'' @ [LF]
        @ js ''signed:mode'')
     = Inl (Error (js ''Unknown entry '' @ [APOSTROPHE] @ js ''signed:mode'' @ [APOSTROPHE]))"
  by code_simp

lemma parse_entries_ns_blind:
  "r_is_valid r = r_is_valid r' \<Longrightarrow> (r_ns r = None) = (r_ns r' = None) \<Longrightarrow>
   map_sum id (\<lambda>x. (r_is_valid x, r_ns x = None)) (parse_entries r es)
   = map_sum id (\<lambda>x. (r_is_valid x, r_ns x = None)) (parse_entries r' es)"
proof (induction es arbitrary: r r')
  case Nil
  then show ?case by simp
next
  case (Cons e es)
  consider (n) "startsWith e (js ''ns:'')"
    | (i) "\<not> startsWith e (js ''ns:'')" "startsWith e (js ''is_valid:'')"
    | (u) "\<not> startsWith e (js ''ns:'')" "\<not> startsWith e (js ''is_valid:'')"
    by blast
  then show ?case
  proof cases
    case n
    then obtain v where e: "e = js ''ns:'' @ v"
      using startsWith_decompose by blast
    show ?thesis
      using Cons.IH [of "r\<lparr>r_ns := Some v\<rparr>" "r'\<lparr>r_ns := Some v\<rparr>"] Cons.prems
      by (simp add: e parse_entry_ns)
  next
    case i
    then obtain w where e: "e = js ''is_valid:'' @ w"
      using startsWith_decompose by blast
    show ?thesis
      using Cons.IH [of "r\<lparr>r_is_valid := Some True\<rparr>" "r'\<lparr>r_is_valid := Some True\<rparr>"]
        Cons.IH [of "r\<lparr>r_is_valid := Some False\<rparr>" "r'\<lparr>r_is_valid := Some False\<rparr>"]
        Cons.prems
      by (simp add: e parse_entry_is_valid)
  next
    case u
    then show ?thesis
      by (simp add: parse_entry_unknown)
  qed
qed

lemma parse_entries_ns_value:
  "map_sum id (\<lambda>x. (r_is_valid x, r_ns x = None)) (parse_entries r0 (xs @ (js ''ns:'' @ v) # ys))
   = map_sum id (\<lambda>x. (r_is_valid x, r_ns x = None)) (parse_entries r0 (xs @ (js ''ns:'' @ v') # ys))"
proof (cases "parse_entries r0 xs")
  case (Inl e)
  then show ?thesis by (simp add: parse_entries_append)
next
  case (Inr r1)
  show ?thesis
    using parse_entries_ns_blind [of "r1\<lparr>r_ns := Some v\<rparr>" "r1\<lparr>r_ns := Some v'\<rparr>" ys]
    by (simp add: parse_entries_append Inr parse_entry_ns)
qed

text \<open>
  C10. An \<^verbatim>\<open>ns\<close> line is accepted whatever follows \<^verbatim>\<open>ns:\<close> (the empty string
  included), and the value plays no part in the outcome: replacing the value of an
  \<^verbatim>\<open>ns\<close> line anywhere in a text by any other value changes neither whether the parser
  succeeds, nor the error it fails with, nor the \<^verbatim>\<open>is_valid\<close> it returns.
\<close>

theorem ns_value_not_validated:
  assumes "\<forall>l\<in>set (a @ b). LF \<notin> set l" and "LF \<notin> set v" and "LF \<notin> set v'"
  shows "parse_oid_check_authentication (join_js [js ''ns:'' @ v, js ''is_valid:true''] LF)
           = Inr \<lparr>ns = v, is_valid = True\<rparr>
         \<and> map_sum id is_valid (parse_oid_check_authentication (join_js (a @ (js ''ns:'' @ v) # b) LF))
           = map_sum id is_valid (parse_oid_check_authentication (join_js (a @ (js ''ns:'' @ v') # b) LF))"
proof
  have l: "\<forall>l\<in>set [js ''ns:'' @ v, js ''is_valid:true'']. LF \<notin> set l"
    using assms(2) by (simp add: js_def LF_def)
  have "js ''is_valid:true'' = js ''is_valid:'' @ js ''true''"
    by (simp add: js_def)
  then have "parse_entries result_empty [js ''ns:'' @ v, js ''is_valid:true'']
        = Inr \<lparr>r_ns = Some v, r_is_valid = Some True\<rparr>"
    using parse_two_lines [of "js ''true''" v] by simp
  then show "parse_oid_check_authentication (join_js [js ''ns:'' @ v, js ''is_valid:true''] LF)
           = Inr \<lparr>ns = v, is_valid = True\<rparr>"
    unfolding parse_oid_check_authentication_def entries_of_join [OF l]
    by (simp add: ns_line_not_empty js_def)
next
  let ?f = "filter (\<lambda>n. n \<noteq> [])"
  have l1: "\<forall>l\<in>set (a @ (js ''ns:'' @ v) # b). LF \<notin> set l"
    using assms(1,2) by (auto simp: js_def LF_def)
  have l2: "\<forall>l\<in>set (a @ (js ''ns:'' @ v') # b). LF \<notin> set l"
    using assms(1,3) by (auto simp: js_def LF_def)
  have e1: "entries_of (join_js (a @ (js ''ns:'' @ v) # b) LF) = ?f a @ (js ''ns:'' @ v) # ?f b"
    by (simp add: entries_of_join [OF l1] ns_line_not_empty)
  have e2: "entries_of (join_js (a @ (js ''ns:'' @ v') # b) LF) = ?f a @ (js ''ns:'' @ v') # ?f b"
    by (simp add: entries_of_join [OF l2] ns_line_not_empty)
  show "map_sum id is_valid (parse_oid_check_authentication (join_js (a @ (js ''ns:'' @ v) # b) LF))
           = map_sum id is_valid (parse_oid_check_authentication (join_js (a @ (js ''ns:'' @ v') # b) LF))"
    using parse_entries_ns_value [of result_empty "?f a" v "?f b" v']
    unfolding parse_oid_check_authentication_def e1 e2
    by (cases "parse_entries result_empty (?f a @ (js ''ns:'' @ v) # ?f b)";
        cases "parse_entries result_empty (?f a @ (js ''ns:'' @ v') # ?f b)")
      (auto split: option.splits)
qed

theorem ns_value_not_validated_witness:
  "parse_oid_check_authentication (js ''ns:'' @ [LF] @ js ''is_valid:true'')
     = Inr \<lparr>ns = [], is_valid = True\<rparr>
   \<and> map_sum id is_valid
       (parse_oid_check_authentication (js ''is_valid:false'' @ [LF] @ js ''ns:'' @ [LF]))
     = map_sum id is_valid
       (parse_oid_check_authentication (js ''is_valid:false'' @ [LF] @ js ''ns::not a namespace'' @ [LF]))
   \<and> parse_oid_check_authentication (js ''is_valid:false'' @ [LF] @ js ''ns::not a namespace'' @ [LF])
     = Inr \<lparr>ns = js '':not a namespace'', is_valid = False\<rparr>"
proof -
  have h: "\<forall>l\<in>set ([js ''is_valid:false''] @ [[]]). LF \<notin> set l" "LF \<notin> set []"
    "LF \<notin> set (js '':not a namespace'')"
    by (simp_all add: js_def LF_def)
  have e: "parse_oid_check_authentication
             (js ''is_valid:false'' @ [LF] @ js ''ns::not a namespace'' @ [LF])
           = Inr \<lparr>ns = js '':not a namespace'', is_valid = False\<rparr>"
    by code_simp
  show ?thesis
    using ns_value_not_validated [OF h] e by (simp add: js_def)
qed

section \<open>The request handler\<close>

lemma append_all_search:
  "foldl (\<lambda>u (k, v). searchParams_append u k v) u kvs = u\<lparr>search := search u @ kvs\<rparr>"
  by (induction kvs arbitrary: u) (auto simp: searchParams_append_def)

lemma url_redir_mut_parts:
  "url_redir_mut config = (steam_openid_url config)\<lparr>search := Object_entries (steam_openid_params config)\<rparr>"
  by (simp add: url_redir_mut_def append_all_search search_clear_def)

lemma url_auth_check_mut_parts:
  "url_auth_check_mut config params_in
     = (steam_openid_url config)\<lparr>search := Object_entries (params_out params_in)\<rparr>"
  by (simp add: url_auth_check_mut_def append_all_search search_clear_def)

lemma main_config_params:
  "steam_openid_params main_config =
     [(js ''openid.mode'', js ''checkid_setup''),
      (js ''openid.ns'', js ''http://specs.openid.net/auth/2.0''),
      (js ''openid.identity'', js ''http://specs.openid.net/auth/2.0/identifier_select''),
      (js ''openid.claimed_id'', js ''http://specs.openid.net/auth/2.0/identifier_select''),
      (js ''openid.return_to'', js ''http://localhost:8080/auth/steam''),
      (js ''openid.realm'', js ''http://localhost:8080'')]"
  by (simp add: main_config_def object_literal_def object_define_def js_def)

lemma not_array_index: "k \<noteq> [] \<Longrightarrow> \<not> is_digit (hd k) \<Longrightarrow> \<not> is_array_index k"
  by (cases k) (auto simp: is_array_index_def)

lemma openid_not_array_index: "\<not> is_array_index (js ''openid.'' @ k)"
  by (rule not_array_index) (simp_all add: js_def is_digit_def)

lemma Object_entries_plain:
  "\<forall>k\<in>fst ` set obj. \<not> is_array_index k \<Longrightarrow> Object_entries obj = obj"
proof -
  assume a: "\<forall>k\<in>fst ` set obj. \<not> is_array_index k"
  then have "filter (\<lambda>(k, v). is_array_index k) obj = []"
    by (auto simp: filter_empty_conv)
  moreover have "filter (\<lambda>(k, v). \<not> is_array_index k) obj = obj"
    using a by (auto simp: filter_id_conv)
  ultimately show ?thesis
    by (simp add: Object_entries_def)
qed

lemma main_config_entries:
  "Object_entries (steam_openid_params main_config) =
     [(js ''openid.mode'', js ''checkid_setup''),
      (js ''openid.ns'', js ''http://specs.openid.net/auth/2.0''),
      (js ''openid.identity'', js ''http://specs.openid.net/auth/2.0/identifier_select''),
      (js ''openid.claimed_id'', js ''http://specs.openid.net/auth/2.0/identifier_select''),
      (js ''openid.return_to'', js ''http://localhost:8080/auth/steam''),
      (js ''openid.realm'', js ''http://localhost:8080'')]"
proof -
  have "\<forall>k\<in>fst ` set (steam_openid_params main_config). \<exists>k'. k = js ''openid.'' @ k'"
    unfolding main_config_params by (simp add: js_def)
  then have "\<forall>k\<in>fst ` set (steam_openid_params main_config). \<not> is_array_index k"
    using openid_not_array_index by auto
  then have "Object_entries (steam_openid_params main_config) = steam_openid_params main_config"
    by (rule Object_entries_plain)
  then show ?thesis
    by (simp only: main_config_params)
qed

lemma scenario_fields:
  "searchParams_of (scenario ps a) = (\<lambda>target. ps)"
  "URL_toString (scenario ps a) = URL_serialise"
  "undici_request (scenario ps a) = (\<lambda>u. a)"
  "Buffer_toString (scenario ps a) = map ucast"
  by (simp_all add: scenario_def)

lemma url_redir_mut_main:
  "url_redir_mut main_config =
             \<lparr>href_base = js ''https://steamcommunity.com/openid/login'',
              search =
                [(js ''openid.mode'', js ''checkid_setup''),
                 (js ''openid.ns'', js ''http://specs.openid.net/auth/2.0''),
                 (js ''openid.identity'', js ''http://specs.openid.net/auth/2.0/identifier_select''),
                 (js ''openid.claimed_id'', js ''http://specs.openid.net/auth/2.0/identifier_select''),
                 (js ''openid.return_to'', js ''http://localhost:8080/auth/steam''),
                 (js ''openid.realm'', js ''http://localhost:8080'')],
              hash = []\<rparr>"
proof -
  have "steam_openid_url main_config =
          \<lparr>href_base = js ''https://steamcommunity.com/openid/login'', search = [], hash = []\<rparr>"
    by (simp add: main_config_def)
  then show ?thesis
    by (simp add: url_redir_mut_parts main_config_entries)
qed

lemma location_main:
  "URL_serialise (url_redir_mut main_config) =
     js ''https://steamcommunity.com/openid/login?openid.mode=checkid_setup&openid.ns=http%3A%2F%2Fspecs.openid.net%2Fauth%2F2.0&openid.identity=http%3A%2F%2Fspecs.openid.net%2Fauth%2F2.0%2Fidentifier_select&openid.claimed_id=http%3A%2F%2Fspecs.openid.net%2Fauth%2F2.0%2Fidentifier_select&openid.return_to=http%3A%2F%2Flocalhost%3A8080%2Fauth%2Fsteam&openid.realm=http%3A%2F%2Flocalhost%3A8080''"
  unfolding url_redir_mut_main
  by (simp add: URL_serialise_def urlencode_def urlencode_byte_def utf8_encode_def hex_digit_def
      js_def is_lead_surrogate_def is_trail_surrogate_def)

lemma other_targets:
  "url i \<noteq> js ''/'' \<Longrightarrow> \<not> startsWith (url i) (js ''/auth/steam'') \<Longrightarrow>
   handle P config i =
     \<lparr>out = \<lparr>statusCode = (if url i = js ''/favicon.ico'' then 204 else 404), headers = [],
             body = [], ended = True\<rparr>,
      sent = [], logged = [Log_request (request_method i) (url i)], thrown = None\<rparr>"
  by (simp add: handle_def Let_def new_response_def end_response_def)

text \<open>
  C8, as amended. The code compares the whole request target \<^verbatim>\<open>i.url\<close>, path and query
  together, with \<^verbatim>\<open>/\<close>. On every request whose target is exactly \<^verbatim>\<open>/\<close>, whatever the
  method, the platform and the configuration, the response is ended with status 303,
  an empty body and the single header \<^verbatim>\<open>Location\<close>, the serialisation of
  \<open>url_redir_mut config\<close>; nothing is sent to the provider and nothing is thrown. That
  URL is the provider URL of the configuration with its own query replaced by the
  entries of the parameter object, and with its fragment untouched. For the
  configuration of \<^verbatim>\<open>main\<close> it has no fragment and its query is the six parameters in
  the order of the object literal, \<^verbatim>\<open>openid.mode=checkid_setup\<close> first, then
  \<^verbatim>\<open>openid.ns\<close>, \<^verbatim>\<open>openid.identity\<close>, \<^verbatim>\<open>openid.claimed_id\<close>, \<^verbatim>\<open>openid.return_to\<close> and
  \<^verbatim>\<open>openid.realm\<close>; printed by the serialiser of the URL Standard it is the string of
  the last line.
\<close>

theorem redirect_response:
  assumes "url i = js ''/''"
  shows "handle P config i =
           \<lparr>out = \<lparr>statusCode = 303,
                   headers = [(js ''Location'', URL_toString P (url_redir_mut config))],
                   body = [], ended = True\<rparr>,
            sent = [], logged = [Log_request (request_method i) (url i)], thrown = None\<rparr>
         \<and> href_base (url_redir_mut config) = href_base (steam_openid_url config)
         \<and> search (url_redir_mut config) = Object_entries (steam_openid_params config)
         \<and> hash (url_redir_mut config) = hash (steam_openid_url config)
         \<and> url_redir_mut main_config =
             \<lparr>href_base = js ''https://steamcommunity.com/openid/login'',
              search =
                [(js ''openid.mode'', js ''checkid_setup''),
                 (js ''openid.ns'', js ''http://specs.openid.net/auth/2.0''),
                 (js ''openid.identity'', js ''http://specs.openid.net/auth/2.0/identifier_select''),
                 (js ''openid.claimed_id'', js ''http://specs.openid.net/auth/2.0/identifier_select''),
                 (js ''openid.return_to'', js ''http://localhost:8080/auth/steam''),
                 (js ''openid.realm'', js ''http://localhost:8080'')],
              hash = []\<rparr>
         \<and> URL_serialise (url_redir_mut main_config) =
             js ''https://steamcommunity.com/openid/login?openid.mode=checkid_setup&openid.ns=http%3A%2F%2Fspecs.openid.net%2Fauth%2F2.0&openid.identity=http%3A%2F%2Fspecs.openid.net%2Fauth%2F2.0%2Fidentifier_select&openid.claimed_id=http%3A%2F%2Fspecs.openid.net%2Fauth%2F2.0%2Fidentifier_select&openid.return_to=http%3A%2F%2Flocalhost%3A8080%2Fauth%2Fsteam&openid.realm=http%3A%2F%2Flocalhost%3A8080''"
proof (intro conjI)
  show "handle P config i =
           \<lparr>out = \<lparr>statusCode = 303,
                   headers = [(js ''Location'', URL_toString P (url_redir_mut config))],
                   body = [], ended = True\<rparr>,
            sent = [], logged = [Log_request (request_method i) (url i)], thrown = None\<rparr>"
    using assms
    by (simp add: handle_def Let_def new_response_def setHeader_def end_response_def)
  show "href_base (url_redir_mut config) = href_base (steam_openid_url config)"
    by (simp add: url_redir_mut_parts)
  show "search (url_redir_mut config) = Object_entries (steam_openid_params config)"
    by (simp add: url_redir_mut_parts)
  show "hash (url_redir_mut config) = hash (steam_openid_url config)"
    by (simp add: url_redir_mut_parts)
  show "url_redir_mut main_config =
             \<lparr>href_base = js ''https://steamcommunity.com/openid/login'',
              search =
                [(js ''openid.mode'', js ''checkid_setup''),
                 (js ''openid.ns'', js ''http://specs.openid.net/auth/2.0''),
                 (js ''openid.identity'', js ''http://specs.openid.net/auth/2.0/identifier_select''),
                 (js ''openid.claimed_id'', js ''http://specs.openid.net/auth/2.0/identifier_select''),
                 (js ''openid.return_to'', js ''http://localhost:8080/auth/steam''),
                 (js ''openid.realm'', js ''http://localhost:8080'')],
              hash = []\<rparr>"
    by (rule url_redir_mut_main)
  show "URL_serialise (url_redir_mut main_config) =
             js ''https://steamcommunity.com/openid/login?openid.mode=checkid_setup&openid.ns=http%3A%2F%2Fspecs.openid.net%2Fauth%2F2.0&openid.identity=http%3A%2F%2Fspecs.openid.net%2Fauth%2F2.0%2Fidentifier_select&openid.claimed_id=http%3A%2F%2Fspecs.openid.net%2Fauth%2F2.0%2Fidentifier_select&openid.return_to=http%3A%2F%2Flocalhost%3A8080%2Fauth%2Fsteam&openid.realm=http%3A%2F%2Flocalhost%3A8080''"
    by (rule location_main)
qed

theorem redirect_response_witness:
  "url \<lparr>request_method = js ''POST'', url = js ''/''\<rparr> = js ''/''
   \<and> handle (scenario [] (Inl (PlatformError []))) main_config
       \<lparr>request_method = js ''POST'', url = js ''/''\<rparr>
     = \<lparr>out = \<lparr>statusCode = 303,
               headers = [(js ''Location'',
                 js ''https://steamcommunity.com/openid/login?openid.mode=checkid_setup&openid.ns=http%3A%2F%2Fspecs.openid.net%2Fauth%2F2.0&openid.identity=http%3A%2F%2Fspecs.openid.net%2Fauth%2F2.0%2Fidentifier_select&openid.claimed_id=http%3A%2F%2Fspecs.openid.net%2Fauth%2F2.0%2Fidentifier_select&openid.return_to=http%3A%2F%2Flocalhost%3A8080%2Fauth%2Fsteam&openid.realm=http%3A%2F%2Flocalhost%3A8080'')],
               body = [], ended = True\<rparr>,
        sent = [], logged = [Log_request (js ''POST'') (js ''/'')], thrown = None\<rparr>"
proof -
  have t: "url \<lparr>request_method = js ''POST'', url = js ''/''\<rparr> = js ''/''"
    by simp
  have "handle (scenario [] (Inl (PlatformError []))) main_config
       \<lparr>request_method = js ''POST'', url = js ''/''\<rparr>
     = \<lparr>out = \<lparr>statusCode = 303,
               headers = [(js ''Location'',
                 URL_toString (scenario [] (Inl (PlatformError []))) (url_redir_mut main_config))],
               body = [], ended = True\<rparr>,
        sent = [], logged = [Log_request (js ''POST'') (js ''/'')], thrown = None\<rparr>"
    using redirect_response [OF t, of "scenario [] (Inl (PlatformError []))" main_config]
    by simp
  then show ?thesis
    by (simp only: t scenario_fields location_main simp_thms)
qed

text \<open>
  C8 as stated is false. A request for \<^verbatim>\<open>/?next=home\<close> has the path \<^verbatim>\<open>/\<close>, but its
  target is not \<^verbatim>\<open>/\<close>: it falls through to the last case of the \<^verbatim>\<open>switch\<close> and is
  answered 404 without a \<^verbatim>\<open>Location\<close> header.
\<close>

theorem redirect_response_counterexample:
  "handle (scenario [(js ''next'', js ''home'')] (Inl (PlatformError []))) main_config
       \<lparr>request_method = js ''GET'', url = js ''/?next=home''\<rparr>
   = \<lparr>out = \<lparr>statusCode = 404, headers = [], body = [], ended = True\<rparr>,
      sent = [], logged = [Log_request (js ''GET'') (js ''/?next=home'')], thrown = None\<rparr>"
  by (subst other_targets) (simp_all add: js_def startsWith_def)

text \<open>
  The comparison is with the whole request target, query included: a target such as
  \<^verbatim>\<open>/?next=home\<close> is not \<^verbatim>\<open>/\<close> and falls through to the last case, as does every
  target that is neither \<^verbatim>\<open>/\<close>, nor \<^verbatim>\<open>/favicon.ico\<close>, nor starts with
  \<^verbatim>\<open>/auth/steam\<close>.
\<close>

lemma root_with_query_not_found:
  "statusCode (out (handle P config \<lparr>request_method = js ''GET'', url = js ''/?next=home''\<rparr>)) = 404"
  by (subst other_targets) (simp_all add: js_def startsWith_def)

lemma auth_steam_not_root: "startsWith u (js ''/auth/steam'') \<Longrightarrow> u \<noteq> js ''/''"
  by (auto simp: startsWith_def js_def)

lemma decoded_body:
  "map ucast (bytes ''ns:http://specs.openid.net/auth/2.0'' @ [10] @ bytes ''is_valid:true'' @ [10])
     = js ''ns:http://specs.openid.net/auth/2.0'' @ [LF] @ js ''is_valid:true'' @ [LF]"
  "map ucast (bytes ''ns:http://specs.openid.net/auth/2.0'' @ [10] @ bytes ''is_valid:false'' @ [10])
     = js ''ns:http://specs.openid.net/auth/2.0'' @ [LF] @ js ''is_valid:false'' @ [LF]"
  by (simp_all add: bytes_def js_def LF_def)

lemma scenario_true:
  "parse_oid_check_authentication
     (js ''ns:http://specs.openid.net/auth/2.0'' @ [LF] @ js ''is_valid:true'' @ [LF])
   = Inr \<lparr>ns = js ''http://specs.openid.net/auth/2.0'', is_valid = True\<rparr>"
  by code_simp

lemma scenario_claimed_id:
  "searchParams_get
     [(js ''openid.mode'', js ''id_res''),
      (js ''openid.claimed_id'', js ''https://steamcommunity.com/openid/id/00000000000000000'')]
     (js ''openid.claimed_id'')
   = Some (js ''https://steamcommunity.com/openid/id/00000000000000000'')"
  by (simp add: searchParams_get_def js_def)

text \<open>
  C1. On a callback request (the target starts with \<^verbatim>\<open>/auth/steam\<close>) for which the
  extractor returns \<open>steam_id\<close>, the provider answers the re-validation request with
  status 200, and the parser accepts the decoded body as \<open>r\<close>: the response is ended
  with an empty body and with status 200 when \<open>is_valid r\<close> is true, 401 when it is
  false; the outcome logged for \<open>steam_id\<close> is \<open>is_valid r\<close>; exactly one
  re-validation request was sent and nothing is thrown.
\<close>

theorem callback_outcome:
  assumes "startsWith (url i) (js ''/auth/steam'')"
    and "parse_oid_claimed_id_steam
           (searchParams_get (searchParams_of P (url i)) (js ''openid.claimed_id'')) = Inr steam_id"
    and "undici_request P (url_auth_check_mut config (searchParams_of P (url i))) = Inr response"
    and "res_statusCode response = 200"
    and "res_body response = Inr buf"
    and "parse_oid_check_authentication (Buffer_toString P buf) = Inr r"
  shows "handle P config i =
           \<lparr>out = \<lparr>statusCode = (if is_valid r then 200 else 401), headers = [], body = [],
                   ended = True\<rparr>,
            sent = [url_auth_check_mut config (searchParams_of P (url i))],
            logged = [Log_request (request_method i) (url i), Log_authenticated steam_id (is_valid r)],
            thrown = None\<rparr>"
  using assms auth_steam_not_root [OF assms(1)]
  by (simp add: handle_def handle_auth_steam_def Let_def new_response_def end_response_def)

theorem callback_outcome_witness:
  "handle
     (scenario
        [(js ''openid.mode'', js ''id_res''),
         (js ''openid.claimed_id'', js ''https://steamcommunity.com/openid/id/00000000000000000'')]
        (Inr \<lparr>res_statusCode = 200,
              res_body = Inr (bytes ''ns:http://specs.openid.net/auth/2.0'' @ [10]
                              @ bytes ''is_valid:true'' @ [10])\<rparr>))
     main_config \<lparr>request_method = js ''GET'', url = js ''/auth/steam?openid.mode=id_res''\<rparr>
   = \<lparr>out = \<lparr>statusCode = 200, headers = [], body = [], ended = True\<rparr>,
      sent = [url_auth_check_mut main_config
        [(js ''openid.mode'', js ''id_res''),
         (js ''openid.claimed_id'', js ''https://steamcommunity.com/openid/id/00000000000000000'')]],
      logged = [Log_request (js ''GET'') (js ''/auth/steam?openid.mode=id_res''),
                Log_authenticated (js ''00000000000000000'') True],
      thrown = None\<rparr>
   \<and> handle
     (scenario
        [(js ''openid.mode'', js ''id_res''),
         (js ''openid.claimed_id'', js ''https://steamcommunity.com/openid/id/00000000000000000'')]
        (Inr \<lparr>res_statusCode = 200,
              res_body = Inr (bytes ''ns:http://specs.openid.net/auth/2.0'' @ [10]
                              @ bytes ''is_valid:false'' @ [10])\<rparr>))
     main_config \<lparr>request_method = js ''GET'', url = js ''/auth/steam?openid.mode=id_res''\<rparr>
   = \<lparr>out = \<lparr>statusCode = 401, headers = [], body = [], ended = True\<rparr>,
      sent = [url_auth_check_mut main_config
        [(js ''openid.mode'', js ''id_res''),
         (js ''openid.claimed_id'', js ''https://steamcommunity.com/openid/id/00000000000000000'')]],
      logged = [Log_request (js ''GET'') (js ''/auth/steam?openid.mode=id_res''),
                Log_authenticated (js ''00000000000000000'') False],
      thrown = None\<rparr>"
proof -
  let ?i = "\<lparr>request_method = js ''GET'', url = js ''/auth/steam?openid.mode=id_res''\<rparr>"
  let ?ps = "[(js ''openid.mode'', js ''id_res''),
         (js ''openid.claimed_id'', js ''https://steamcommunity.com/openid/id/00000000000000000'')]"
  let ?b1 = "bytes ''ns:http://specs.openid.net/auth/2.0'' @ [10] @ bytes ''is_valid:true'' @ [10]"
  let ?b2 = "bytes ''ns:http://specs.openid.net/auth/2.0'' @ [10] @ bytes ''is_valid:false'' @ [10]"
  let ?r1 = "\<lparr>res_statusCode = 200, res_body = Inr ?b1\<rparr>"
  let ?r2 = "\<lparr>res_statusCode = 200, res_body = Inr ?b2\<rparr>"
  have target: "startsWith (url ?i) (js ''/auth/steam'')"
    by (simp add: startsWith_def js_def)
  have id1: "parse_oid_claimed_id_steam
               (searchParams_get (searchParams_of (scenario ?ps (Inr ?r1)) (url ?i))
                  (js ''openid.claimed_id''))
             = Inr (js ''00000000000000000'')"
    by (simp add: scenario_fields scenario_claimed_id module_assertion_claimed_id)
  have id2: "parse_oid_claimed_id_steam
               (searchParams_get (searchParams_of (scenario ?ps (Inr ?r2)) (url ?i))
                  (js ''openid.claimed_id''))
             = Inr (js ''00000000000000000'')"
    by (simp add: scenario_fields scenario_claimed_id module_assertion_claimed_id)
  have rq1: "undici_request (scenario ?ps (Inr ?r1))
               (url_auth_check_mut main_config (searchParams_of (scenario ?ps (Inr ?r1)) (url ?i)))
             = Inr ?r1"
    by (simp add: scenario_fields)
  have rq2: "undici_request (scenario ?ps (Inr ?r2))
               (url_auth_check_mut main_config (searchParams_of (scenario ?ps (Inr ?r2)) (url ?i)))
             = Inr ?r2"
    by (simp add: scenario_fields)
  have p1: "parse_oid_check_authentication (Buffer_toString (scenario ?ps (Inr ?r1)) ?b1)
            = Inr \<lparr>ns = js ''http://specs.openid.net/auth/2.0'', is_valid = True\<rparr>"
    by (simp only: scenario_fields decoded_body scenario_true)
  have p2: "parse_oid_check_authentication (Buffer_toString (scenario ?ps (Inr ?r2)) ?b2)
            = Inr \<lparr>ns = js ''http://specs.openid.net/auth/2.0'', is_valid = False\<rparr>"
    by (simp only: scenario_fields decoded_body module_assertion_check_authentication)
  have s1: "res_statusCode ?r1 = 200" "res_body ?r1 = Inr ?b1"
    by simp_all
  have s2: "res_statusCode ?r2 = 200" "res_body ?r2 = Inr ?b2"
    by simp_all
  show ?thesis
    using callback_outcome [OF target id1 rq1 s1 p1] callback_outcome [OF target id2 rq2 s2 p2]
    by (simp add: scenario_fields)
qed

text \<open>
  C2. What the code does on a callback request whose \<^verbatim>\<open>openid.claimed_id\<close> is absent
  or fails extraction. No re-validation request is sent, as the claim says. But the
  exception \<open>e\<close> of the extractor leaves \<^verbatim>\<open>handle\<close>: the response is never ended and
  its status is never set, so no status 500 is written. The two sibling failures of the
  same branch (a provider status other than 200, a response that does not parse) do set
  500 and end the response.
\<close>

theorem callback_extraction_failure:
  assumes "startsWith (url i) (js ''/auth/steam'')"
    and "parse_oid_claimed_id_steam
           (searchParams_get (searchParams_of P (url i)) (js ''openid.claimed_id'')) = Inl e"
  shows "handle P config i =
           \<lparr>out = \<lparr>statusCode = 200, headers = [], body = [], ended = False\<rparr>,
            sent = [], logged = [Log_request (request_method i) (url i)], thrown = Some e\<rparr>"
  using assms auth_steam_not_root [OF assms(1)]
  by (simp add: handle_def handle_auth_steam_def Let_def new_response_def)

theorem callback_extraction_failure_witness:
  "handle (scenario [] (Inl (PlatformError []))) main_config
       \<lparr>request_method = js ''GET'', url = js ''/auth/steam''\<rparr>
     = \<lparr>out = \<lparr>statusCode = 200, headers = [], body = [], ended = False\<rparr>,
        sent = [], logged = [Log_request (js ''GET'') (js ''/auth/steam'')],
        thrown = Some TypeError\<rparr>
   \<and> handle (scenario [(js ''openid.claimed_id'', js ''steam'')] (Inl (PlatformError []))) main_config
       \<lparr>request_method = js ''GET'', url = js ''/auth/steam?openid.claimed_id=steam''\<rparr>
     = \<lparr>out = \<lparr>statusCode = 200, headers = [], body = [], ended = False\<rparr>,
        sent = [],
        logged = [Log_request (js ''GET'') (js ''/auth/steam?openid.claimed_id=steam'')],
        thrown = Some (AssertionError (js ''idx is gt 0''))\<rparr>"
proof -
  have t1: "startsWith (url \<lparr>request_method = js ''GET'', url = js ''/auth/steam''\<rparr>) (js ''/auth/steam'')"
    by (simp add: startsWith_def)
  have t2: "startsWith (url \<lparr>request_method = js ''GET'', url = js ''/auth/steam?openid.claimed_id=steam''\<rparr>)
              (js ''/auth/steam'')"
    by (simp add: startsWith_def js_def)
  have e1: "parse_oid_claimed_id_steam (searchParams_get [] (js ''openid.claimed_id'')) = Inl TypeError"
    by (simp add: searchParams_get_def parse_oid_claimed_id_steam_def)
  have e2: "parse_oid_claimed_id_steam
              (searchParams_get [(js ''openid.claimed_id'', js ''steam'')] (js ''openid.claimed_id''))
            = Inl (AssertionError (js ''idx is gt 0''))"
    by (simp add: searchParams_get_def parse_oid_claimed_id_steam_def Let_def)
      (simp add: js_def SLASH_def)
  show ?thesis
    using callback_extraction_failure [where config = main_config
        and P = "scenario [] (Inl (PlatformError []))", OF t1]
      callback_extraction_failure [where config = main_config
        and P = "scenario [(js ''openid.claimed_id'', js ''steam'')] (Inl (PlatformError []))", OF t2]
    by (simp add: scenario_fields e1 e2)
qed

section \<open>The re-validation request\<close>

lemma update_fresh: "k \<notin> fst ` set xs \<Longrightarrow> AList.update k v xs = xs @ [(k, v)]"
  by (induction xs) auto

lemma update_other_key:
  "k \<noteq> k' \<Longrightarrow> filter (\<lambda>(a, b). a = k') (AList.update k v xs) = filter (\<lambda>(a, b). a = k') xs"
  by (induction xs) auto

lemma params_out_fold_mode:
  "filter (\<lambda>(a, b). a = js ''openid.mode'')
     (foldl (\<lambda>obj (k, v). if k = js ''openid.mode'' then obj else object_set obj k v) acc ps)
   = filter (\<lambda>(a, b). a = js ''openid.mode'') acc"
  by (induction ps arbitrary: acc) (auto simp: object_set_def update_other_key)


lemma params_out_fold_distinct:
  "distinct (map fst (filter (\<lambda>(k, v). k \<noteq> js ''openid.mode'') ps)) \<Longrightarrow>
   \<forall>p\<in>set ps. fst p \<noteq> js ''__proto__''
      \<and> (fst p \<noteq> js ''openid.mode'' \<longrightarrow> fst p \<notin> fst ` set acc) \<Longrightarrow>
   foldl (\<lambda>obj (k, v). if k = js ''openid.mode'' then obj else object_set obj k v) acc ps
   = acc @ filter (\<lambda>(k, v). k \<noteq> js ''openid.mode'') ps"
proof (induction ps arbitrary: acc)
  case Nil
  then show ?case by simp
next
  case (Cons p ps)
  obtain k v where p: "p = (k, v)"
    by (cases p)
  have tail: "\<forall>q\<in>set ps. fst q \<noteq> js ''__proto__''
      \<and> (fst q \<noteq> js ''openid.mode'' \<longrightarrow> fst q \<notin> fst ` set acc)"
    using Cons.prems(2) by simp
  show ?case
  proof (cases "k = js ''openid.mode''")
    case True
    have d: "distinct (map fst (filter (\<lambda>(k, v). k \<noteq> js ''openid.mode'') ps))"
      using Cons.prems(1) True by (simp add: p)
    show ?thesis
      using Cons.IH [OF d tail] True by (simp add: p)
  next
    case False
    have fresh: "k \<notin> fst ` set acc" and np: "k \<noteq> js ''__proto__''"
      using Cons.prems(2) False by (simp_all add: p)
    have step: "object_set acc k v = acc @ [(k, v)]"
      using fresh np by (simp add: object_set_def update_fresh)
    have d: "distinct (map fst (filter (\<lambda>(k, v). k \<noteq> js ''openid.mode'') ps))"
      and nk: "k \<notin> set (map fst (filter (\<lambda>(k, v). k \<noteq> js ''openid.mode'') ps))"
      using Cons.prems(1) False by (simp_all add: p)
    have tail': "\<forall>q\<in>set ps. fst q \<noteq> js ''__proto__''
            \<and> (fst q \<noteq> js ''openid.mode'' \<longrightarrow> fst q \<notin> fst ` set (acc @ [(k, v)]))"
    proof
      fix q
      assume q: "q \<in> set ps"
      have "fst q \<noteq> k" if "fst q \<noteq> js ''openid.mode''"
      proof
        assume "fst q = k"
        then have "k \<in> set (map fst (filter (\<lambda>(k, v). k \<noteq> js ''openid.mode'') ps))"
          using q that by (cases q) force
        then show False
          using nk by simp
      qed
      then show "fst q \<noteq> js ''__proto__''
            \<and> (fst q \<noteq> js ''openid.mode'' \<longrightarrow> fst q \<notin> fst ` set (acc @ [(k, v)]))"
        using tail q by simp
    qed
    show ?thesis
      using Cons.IH [OF d tail'] False by (simp add: p step)
  qed
qed


lemma params_out_initial:
  "object_literal [(js ''openid.mode'', js ''check_authentication'')]
   = [(js ''openid.mode'', js ''check_authentication'')]"
  by (simp add: object_literal_def object_define_def)

lemma mode_not_array_index: "\<not> is_array_index (js ''openid.mode'')"
proof -
  have "js ''openid.mode'' = js ''openid.'' @ js ''mode''"
    by (simp add: js_def)
  then show ?thesis
    using openid_not_array_index [of "js ''mode''"] by simp
qed

lemma Object_entries_filter_mode:
  "filter (\<lambda>(a, b). a = js ''openid.mode'') (Object_entries obj)
   = filter (\<lambda>(a, b). a = js ''openid.mode'') obj"
proof -
  have a: "filter (\<lambda>(a, b). a = js ''openid.mode'') (filter (\<lambda>(k, v). is_array_index k) obj) = []"
    using mode_not_array_index by (auto simp: filter_empty_conv)
  have b: "filter (\<lambda>(a, b). a = js ''openid.mode'') (filter (\<lambda>(k, v). \<not> is_array_index k) obj)
           = filter (\<lambda>(a, b). a = js ''openid.mode'') obj"
    using mode_not_array_index by (induction obj) auto
  show ?thesis
    unfolding Object_entries_def filter_append filter_sort a b by simp
qed


text \<open>
  What the query of the re-validation URL does hold. For every sequence of callback
  parameters it has exactly one \<^verbatim>\<open>openid.mode\<close> field, with the value
  \<^verbatim>\<open>check_authentication\<close>. When the received names other than \<^verbatim>\<open>openid.mode\<close> are
  pairwise distinct, and no received name is an array index or \<^verbatim>\<open>__proto__\<close>, it is
  that field followed by every received field other than \<^verbatim>\<open>openid.mode\<close>, unchanged and
  in the order received.
\<close>

lemma revalidation_request_fields:
  "filter (\<lambda>(k, v). k = js ''openid.mode'') (search (url_auth_check_mut config params_in))
     = [(js ''openid.mode'', js ''check_authentication'')]
   \<and> (distinct (map fst (filter (\<lambda>(k, v). k \<noteq> js ''openid.mode'') params_in))
        \<and> (\<forall>p\<in>set params_in. \<not> is_array_index (fst p) \<and> fst p \<noteq> js ''__proto__'')
      \<longrightarrow> search (url_auth_check_mut config params_in)
          = (js ''openid.mode'', js ''check_authentication'')
            # filter (\<lambda>(k, v). k \<noteq> js ''openid.mode'') params_in)"
proof (intro conjI impI)
  show "filter (\<lambda>(k, v). k = js ''openid.mode'') (search (url_auth_check_mut config params_in))
     = [(js ''openid.mode'', js ''check_authentication'')]"
    by (simp add: url_auth_check_mut_parts Object_entries_filter_mode params_out_def
        params_out_fold_mode params_out_initial)
next
  assume h: "distinct (map fst (filter (\<lambda>(k, v). k \<noteq> js ''openid.mode'') params_in))
        \<and> (\<forall>p\<in>set params_in. \<not> is_array_index (fst p) \<and> fst p \<noteq> js ''__proto__'')"
  have d: "distinct (map fst (filter (\<lambda>(k, v). k \<noteq> js ''openid.mode'') params_in))"
    using h by (rule conjunct1)
  have t: "\<forall>p\<in>set params_in. fst p \<noteq> js ''__proto__''
          \<and> (fst p \<noteq> js ''openid.mode''
               \<longrightarrow> fst p \<notin> fst ` set [(js ''openid.mode'', js ''check_authentication'')])"
    using h by simp
  have po: "params_out params_in
        = [(js ''openid.mode'', js ''check_authentication'')]
          @ filter (\<lambda>(k, v). k \<noteq> js ''openid.mode'') params_in"
    unfolding params_out_def params_out_initial
    by (rule params_out_fold_distinct [OF d t])
  have "\<forall>k\<in>fst ` set (params_out params_in). \<not> is_array_index k"
  proof
    fix k
    assume "k \<in> fst ` set (params_out params_in)"
    then have "k = js ''openid.mode'' \<or> (\<exists>p\<in>set params_in. k = fst p)"
      unfolding po by force
    then show "\<not> is_array_index k"
      using h mode_not_array_index by blast
  qed
  then have "Object_entries (params_out params_in) = params_out params_in"
    by (rule Object_entries_plain)
  then show "search (url_auth_check_mut config params_in)
          = (js ''openid.mode'', js ''check_authentication'')
            # filter (\<lambda>(k, v). k \<noteq> js ''openid.mode'') params_in"
    by (simp add: url_auth_check_mut_parts po)
qed

lemma callback_success:
  assumes "startsWith (url i) (js ''/auth/steam'')"
    and "parse_oid_claimed_id_steam
           (searchParams_get (searchParams_of P (url i)) (js ''openid.claimed_id'')) = Inr steam_id"
    and "undici_request P (url_auth_check_mut config (searchParams_of P (url i))) = Inr response"
    and "res_statusCode response = 200"
    and "res_body response = Inr buf"
    and "parse_oid_check_authentication (Buffer_toString P buf) = Inr r"
  shows "handle P config i =
           \<lparr>out = \<lparr>statusCode = (if is_valid r then 200 else 401), headers = [], body = [],
                   ended = True\<rparr>,
            sent = [url_auth_check_mut config (searchParams_of P (url i))],
            logged = [Log_request (request_method i) (url i),
                      Log_authenticated steam_id (is_valid r)],
            thrown = None\<rparr>"
  using assms auth_steam_not_root [OF assms(1)]
  by (simp add: handle_def handle_auth_steam_def Let_def new_response_def end_response_def)

text \<open>
  C5. The loop of lines 61 to 64 copies every received pair other than
  \<^verbatim>\<open>openid.mode\<close>, but into a plain object, which keeps one value for a name. On a
  callback that carries \<^verbatim>\<open>openid.claimed_id\<close> twice the first pair is not forwarded:
  the provider is asked about the identity ending in \<^verbatim>\<open>99999999999999999\<close> alone, while
  line 57 has read the first value, so that on the provider's \<^verbatim>\<open>is_valid:true\<close> the
  response is 200 and the identifier \<^verbatim>\<open>00000000000000000\<close> is logged as authenticated.
\<close>

theorem revalidation_request_loses_fields:
  "handle
     (scenario
        [(js ''openid.mode'', js ''id_res''),
         (js ''openid.claimed_id'', js ''https://steamcommunity.com/openid/id/00000000000000000''),
         (js ''openid.claimed_id'', js ''https://steamcommunity.com/openid/id/99999999999999999'')]
        (Inr \<lparr>res_statusCode = 200,
              res_body = Inr (bytes ''ns:http://specs.openid.net/auth/2.0'' @ [10]
                              @ bytes ''is_valid:true'' @ [10])\<rparr>))
     main_config
     \<lparr>request_method = js ''GET'',
      url = js ''/auth/steam?openid.mode=id_res&openid.claimed_id=https://steamcommunity.com/openid/id/00000000000000000&openid.claimed_id=https://steamcommunity.com/openid/id/99999999999999999''\<rparr>
   = \<lparr>out = \<lparr>statusCode = 200, headers = [], body = [], ended = True\<rparr>,
      sent =
        [\<lparr>href_base = js ''https://steamcommunity.com/openid/login'',
          search =
            [(js ''openid.mode'', js ''check_authentication''),
             (js ''openid.claimed_id'', js ''https://steamcommunity.com/openid/id/99999999999999999'')],
          hash = []\<rparr>],
      logged =
        [Log_request (js ''GET'')
           (js ''/auth/steam?openid.mode=id_res&openid.claimed_id=https://steamcommunity.com/openid/id/00000000000000000&openid.claimed_id=https://steamcommunity.com/openid/id/99999999999999999''),
         Log_authenticated (js ''00000000000000000'') True],
      thrown = None\<rparr>"
proof -
  let ?ps = "[(js ''openid.mode'', js ''id_res''),
         (js ''openid.claimed_id'', js ''https://steamcommunity.com/openid/id/00000000000000000''),
         (js ''openid.claimed_id'', js ''https://steamcommunity.com/openid/id/99999999999999999'')]"
  let ?b = "bytes ''ns:http://specs.openid.net/auth/2.0'' @ [10] @ bytes ''is_valid:true'' @ [10]"
  let ?r = "\<lparr>res_statusCode = 200, res_body = Inr ?b\<rparr>"
  let ?P = "scenario ?ps (Inr ?r)"
  let ?i = "\<lparr>request_method = js ''GET'',
      url = js ''/auth/steam?openid.mode=id_res&openid.claimed_id=https://steamcommunity.com/openid/id/00000000000000000&openid.claimed_id=https://steamcommunity.com/openid/id/99999999999999999''\<rparr>"
  have target: "startsWith (url ?i) (js ''/auth/steam'')"
    by (simp add: startsWith_def js_def)
  have first: "searchParams_get ?ps (js ''openid.claimed_id'')
               = Some (js ''https://steamcommunity.com/openid/id/00000000000000000'')"
    by (simp add: searchParams_get_def js_def)
  have id: "parse_oid_claimed_id_steam
              (searchParams_get (searchParams_of ?P (url ?i)) (js ''openid.claimed_id''))
            = Inr (js ''00000000000000000'')"
    by (simp add: scenario_fields first module_assertion_claimed_id)
  have rq: "undici_request ?P (url_auth_check_mut main_config (searchParams_of ?P (url ?i)))
            = Inr ?r"
    by (simp add: scenario_fields)
  have st: "res_statusCode ?r = 200" "res_body ?r = Inr ?b"
    by simp_all
  have p: "parse_oid_check_authentication (Buffer_toString ?P ?b)
           = Inr \<lparr>ns = js ''http://specs.openid.net/auth/2.0'', is_valid = True\<rparr>"
    by (simp only: scenario_fields decoded_body scenario_true)
  have last: "url_auth_check_mut main_config ?ps
        = \<lparr>href_base = js ''https://steamcommunity.com/openid/login'',
          search =
            [(js ''openid.mode'', js ''check_authentication''),
             (js ''openid.claimed_id'', js ''https://steamcommunity.com/openid/id/99999999999999999'')],
          hash = []\<rparr>"
    by (simp add: url_auth_check_mut_parts params_out_def object_literal_def object_define_def
        object_set_def Object_entries_def is_array_index_def is_digit_def digits_value_def
        main_config_def js_def)
  show ?thesis
    using callback_success [OF target id rq st p]
    by (simp add: scenario_fields last)
qed

end
